theory Spec2Isabelle
  imports Complex_Main
begin

section \<open>K-mer spectra: peaks, spectra and the numeric conventions\<close>

text \<open>
  The development follows \<^verbatim>\<open>scripts/kat/spectra.py\<close>. numpy's float64 values
  are read as real numbers and numpy's integer indices as natural numbers; a numpy
  array is a list. Where a returned value depends on the rounding of float64, in the
  smoother and in the coverage metric, the rounding is a parameter of the function. The
  objects mutated by the methods of \<^verbatim>\<open>Spectra\<close> are passed explicitly and returned
  updated.
\<close>

datatype py_exception =
    ValueError string
  | TypeError string
  | AttributeError string
  | RuntimeError string

text \<open>\<^verbatim>\<open>str(inst)\<close> of an exception: its message.\<close>

fun str_exception :: "py_exception \<Rightarrow> string" where
  "str_exception (ValueError m) = m"
| "str_exception (TypeError m) = m"
| "str_exception (AttributeError m) = m"
| "str_exception (RuntimeError m) = m"

text \<open>\<^verbatim>\<open>str(n)\<close> of a non-negative integer, and the line that \<^verbatim>\<open>print\<close> writes.\<close>

fun str_nat :: "nat \<Rightarrow> string" where
  "str_nat n =
     (if n < 10 then [''0123456789'' ! n]
      else str_nat (n div 10) @ [''0123456789'' ! (n mod 10)])"

definition line :: "string \<Rightarrow> string" where
  "line t = t @ [CHR 0x0A]"

text \<open>Python's \<^verbatim>\<open>int(x)\<close> on a float truncates towards zero.\<close>

definition py_int :: "real \<Rightarrow> int" where
  "py_int x = (if 0 \<le> x then \<lfloor>x\<rfloor> else \<lceil>x\<rceil>)"

text \<open>
  Modelled from the spec: the class \<^verbatim>\<open>Peak\<close> of \<^verbatim>\<open>kat/peak.py\<close> is imported,
  its source is not part of \<^verbatim>\<open>spectra.py\<close>. A peak is a mutable record with a mean, a
  standard deviation, a height, a primary flag, a description and the samples of its
  fitted curve; a freshly constructed peak has no curve yet.
\<close>

record Peak =
  p_mean :: real
  p_stddev :: real
  p_peak :: real
  p_primary :: bool
  p_Ty :: "real list"
  p_description :: string

definition new_Peak :: "real \<Rightarrow> real \<Rightarrow> real \<Rightarrow> bool \<Rightarrow> Peak" where
  "new_Peak mean stddev peak primary =
     \<lparr>p_mean = mean, p_stddev = stddev, p_peak = peak, p_primary = primary,
      p_Ty = [], p_description = []\<rparr>"

text \<open>
  Modelled from the spec: \<^verbatim>\<open>Peak.elements()\<close> is the volume of the fitted curve,
  the sum of its samples.
\<close>

definition elements :: "Peak \<Rightarrow> real" where
  "elements p = sum_list (p_Ty p)"

text \<open>
  The state of a \<^verbatim>\<open>KmerSpectra\<close> object, together with the two output streams
  its methods print to. \<^verbatim>\<open>peaks\<close> is \<^verbatim>\<open>None\<close> until peaks are created and
  \<^verbatim>\<open>realTy\<close> does not exist before \<^verbatim>\<open>optimise\<close> has run.
\<close>

record Spectra =
  histogram :: "real list"
  kval :: nat
  peaks :: "Peak list option"
  Tx :: "real list"
  Ty :: "real list"
  realTy :: "real list option"
  haploid :: bool
  fmax :: nat
  fmin :: nat
  stdout :: "string list"
  stderr :: "string list"

section \<open>Initial peaks of the primary-content strategy\<close>

text \<open>
  The scan \<^verbatim>\<open>for i in range(1, len(h) - 2)\<close> with its \<^verbatim>\<open>break\<close>: the first
  index at which the histogram is below its next two values, 0 when the loop runs out.
  The indices \<open>i + 1\<close> and \<open>i + 2\<close> are inside the histogram for every \<open>i\<close> of the range.
\<close>

fun scan_fmin :: "real list \<Rightarrow> nat list \<Rightarrow> nat" where
  "scan_fmin h [] = 0"
| "scan_fmin h (i # rest) =
     (if h ! i < h ! (i + 1) \<and> h ! i < h ! (i + 2) then i else scan_fmin h rest)"

text \<open>\<^verbatim>\<open>np.argmax\<close>: the index of the first occurrence of the maximum.\<close>

definition np_argmax :: "real list \<Rightarrow> nat" where
  "np_argmax xs = fold (\<lambda>i best. if xs ! best < xs ! i then i else best) [0..<length xs] 0"

text \<open>The candidate frequencies, appended in the order of the source.\<close>

definition frequencies :: "bool \<Rightarrow> nat \<Rightarrow> real list" where
  "frequencies hap fm =
     fold (\<lambda>i fs. fs @ [real (fm * i)]) [1..<5]
       (if \<not> hap then [] @ [real fm / 2] else [])"

text \<open>
  The body of \<^verbatim>\<open>for mu in frequencies\<close>, on the list of peaks built so far. The
  read \<^verbatim>\<open>self.histogram[mean]\<close> happens only under the guard, which puts
  \<open>mean\<close> inside the histogram.
\<close>

definition candidate_step :: "real list \<Rightarrow> nat \<Rightarrow> nat \<Rightarrow> real \<Rightarrow> Peak list \<Rightarrow> Peak list" where
  "candidate_step h fmn fm mu ps =
     (let sigma = sqrt mu;
          radius = py_int (sigma * 2);
          mean = py_int mu
      in if radius \<ge> 2 \<and> mean > int fmn \<and> mu - real_of_int radius > 0
            \<and> mu + real_of_int radius < real (length h)
         then ps @ [new_Peak (real_of_int mean) sigma (h ! nat mean) (mean = int fm)]
         else ps)"

definition createInitialPeaks :: "Spectra \<Rightarrow> Spectra" where
  "createInitialPeaks s =
     (let h = histogram s;
          fmn = scan_fmin h [1..<length h - 2];
          fm = (if fmn = 0 then 0 else np_argmax (drop fmn h) + fmn);
          s1 = s\<lparr>fmin := fmn, fmax := fm\<rparr>
      in if fm < 10 then s1\<lparr>peaks := None\<rparr>
         else s1\<lparr>peaks := Some (fold (candidate_step h fmn fm) (frequencies (haploid s) fm) [])\<rparr>)"


section \<open>float64 arithmetic\<close>

text \<open>
  The smoother and the coverage metric return values whose last digit depends on the
  rounding of float64, so their arithmetic is a parameter: \<open>fl\<close> rounds the exact
  result of one \<^verbatim>\<open>+\<close>, \<^verbatim>\<open>*\<close> or \<^verbatim>\<open>/\<close> to a float64, \<open>fsum\<close> is the sum
  of an array (\<^verbatim>\<open>ndarray.sum\<close>) and \<open>fdot\<close> the inner product by which
  \<^verbatim>\<open>np.convolve\<close> computes one output sample.
\<close>

record float_ops =
  fl :: "real \<Rightarrow> real"
  fsum :: "real list \<Rightarrow> real"
  fdot :: "real list \<Rightarrow> real list \<Rightarrow> real"

text \<open>
  Rounding to the nearest float64, ties to the even significand, for results in the
  normal range: a value with \<open>2^e \<le> |v| < 2^(e+1)\<close> goes to the nearest multiple of
  \<open>2^(e-52)\<close>.
\<close>

definition round_half_even :: "real \<Rightarrow> int" where
  "round_half_even v =
     (let n = \<lfloor>v\<rfloor>; r = v - real_of_int n
      in if r < 1 / 2 then n else if 1 / 2 < r then n + 1 else if even n then n else n + 1)"

definition fl64 :: "real \<Rightarrow> real" where
  "fl64 v =
     (if v = 0 then 0
      else let q = 2 powr (real_of_int \<lfloor>log 2 \<bar>v\<bar>\<rfloor> - 52)
           in real_of_int (round_half_even (v / q)) * q)"

text \<open>
  float64 with sums and inner products accumulated from left to right, and arithmetic
  without rounding.
\<close>

definition float64 :: float_ops where
  "float64 =
     \<lparr>fl = fl64,
      fsum = (\<lambda>xs. fold (\<lambda>v acc. fl64 (acc + v)) xs 0),
      fdot = (\<lambda>xs ys. fold (\<lambda>(a, b) acc. fl64 (acc + fl64 (a * b))) (zip xs ys) 0)\<rparr>"

definition exact_ops :: float_ops where
  "exact_ops =
     \<lparr>fl = (\<lambda>v. v),
      fsum = sum_list,
      fdot = (\<lambda>xs ys. \<Sum>(a, b)\<leftarrow>zip xs ys. a * b)\<rparr>"

section \<open>numpy operations used by the fitting code\<close>

text \<open>
  A slice \<^verbatim>\<open>x[start:stop:-1]\<close> with both bounds given: a negative bound counts from
  the end, a bound outside the array is clamped to \<open>-1\<close> or to the last index, and
  the indices run from \<open>start\<close> down to \<open>stop + 1\<close>.
\<close>

definition clamp_rev :: "int \<Rightarrow> int \<Rightarrow> int" where
  "clamp_rev n i =
     (if i < 0 then (if i + n < 0 then - 1 else i + n)
      else if i \<ge> n then n - 1 else i)"

definition slice_rev :: "real list \<Rightarrow> int \<Rightarrow> int \<Rightarrow> real list" where
  "slice_rev x start stop =
     (let n = int (length x);
          a = clamp_rev n start;
          b = clamp_rev n stop
      in map (\<lambda>i. x ! nat i) (rev [b + 1..a]))"

text \<open>
  \<^verbatim>\<open>np.convolve(a, v, mode='valid')\<close>: the shorter argument is the kernel, and the
  output has one sample for each position where the kernel overlaps the signal
  completely, the inner product of that window of the signal with the reversed kernel.
  Both arguments are non-empty at the only call.
\<close>

definition np_convolve_valid :: "float_ops \<Rightarrow> real list \<Rightarrow> real list \<Rightarrow> real list" where
  "np_convolve_valid A a v =
     (let sig = (if length v > length a then v else a);
          ker = (if length v > length a then a else v);
          m = length ker
      in map (\<lambda>k. fdot A (take m (drop k sig)) (rev ker)) [0..<length sig - m + 1])"

text \<open>
  The in-place \<^verbatim>\<open>a += b\<close> and the binary \<^verbatim>\<open>a - b\<close> on one-dimensional arrays:
  shapes must agree, up to broadcasting of an operand of length one.
\<close>

definition np_iadd :: "real list \<Rightarrow> real list \<Rightarrow> py_exception + real list" where
  "np_iadd a b =
     (if length b = length a then Inr (map2 (+) a b)
      else if length b = 1 then Inr (map (\<lambda>v. v + hd b) a)
      else Inl (ValueError ''operands could not be broadcast together''))"

definition np_sub :: "real list \<Rightarrow> real list \<Rightarrow> py_exception + real list" where
  "np_sub a b =
     (if length b = length a then Inr (map2 (-) a b)
      else if length b = 1 then Inr (map (\<lambda>v. v - hd b) a)
      else if length a = 1 then Inr (map (\<lambda>v. hd a - v) b)
      else Inl (ValueError ''operands could not be broadcast together''))"

text \<open>
  \<^verbatim>\<open>np.linspace(0, n - 1, n)\<close>, and Python's \<^verbatim>\<open>sum\<close> of a list of float64
  values: one addition for each item, from left to right, starting from 0.
\<close>

definition linspace0 :: "nat \<Rightarrow> real list" where
  "linspace0 n = map real [0..<n]"

definition py_sum :: "float_ops \<Rightarrow> real list \<Rightarrow> real" where
  "py_sum A xs = fold (\<lambda>v acc. fl A (acc + v)) xs 0"

section \<open>The histogram smoother\<close>

text \<open>
  \<^verbatim>\<open>smooth(x, window_len)\<close>; the array is given by its number of dimensions and,
  when it has one dimension, its samples.
\<close>

definition smooth :: "float_ops \<Rightarrow> nat \<Rightarrow> real list \<Rightarrow> int \<Rightarrow> py_exception + real list" where
  "smooth A ndim x window_len =
     (if ndim \<noteq> 1 then Inl (ValueError ''Smooth only accepts 1 dimension arrays.'')
      else if int (length x) < window_len \<or> window_len < 3 then Inr x
      else
        let s = slice_rev x (window_len - 1) 0 @ x @ slice_rev x (- 2) (- window_len - 1);
            w = replicate (nat window_len) (1::real);
            y = np_convolve_valid A (map (\<lambda>v. fl A (v / fsum A w)) w) s
        in Inr y)"

section \<open>External collaborators\<close>

text \<open>
  The result of \<^verbatim>\<open>scipy.optimize.least_squares\<close>, as far as \<^verbatim>\<open>optimise\<close> reads it.
\<close>

record OptimizeResult =
  r_success :: bool
  r_x :: "real list"
  r_nfev :: nat

text \<open>
  The functions that \<^verbatim>\<open>spectra.py\<close> calls and does not define are parameters:
  \<^verbatim>\<open>createModel(X, mean, stddev, peak)\<close> and \<^verbatim>\<open>Peak.optimise(histogram)\<close> of
  \<^verbatim>\<open>kat/peak.py\<close>, \<^verbatim>\<open>least_squares(fun, x0, bounds=(lb, ub), loss="soft_l1")\<close> of
  scipy and \<^verbatim>\<open>tabulate\<close> on the rows of the peaks. The two that run an optimiser
  may raise.
\<close>

record collaborators =
  createModel :: "real list \<Rightarrow> real \<Rightarrow> real \<Rightarrow> real \<Rightarrow> real list"
  Peak_optimise :: "Peak \<Rightarrow> real list \<Rightarrow> py_exception + Peak"
  least_squares ::
    "(real list \<Rightarrow> py_exception + real list) \<Rightarrow> real list \<Rightarrow> real list \<Rightarrow> real list
       \<Rightarrow> py_exception + OptimizeResult"
  tabulate :: "Peak list \<Rightarrow> string"

text \<open>
  Modelled from the spec: \<^verbatim>\<open>Peak.updateModel(mean, height, stddev)\<close> of
  \<^verbatim>\<open>kat/peak.py\<close> stores the three values and recomputes the peak's curve on the
  domain of the histogram.
\<close>

definition Peak_updateModel ::
  "collaborators \<Rightarrow> real list \<Rightarrow> Peak \<Rightarrow> real \<Rightarrow> real \<Rightarrow> real \<Rightarrow> Peak" where
  "Peak_updateModel env tx p new_mean new_peak new_stddev =
     p\<lparr>p_mean := new_mean, p_peak := new_peak, p_stddev := new_stddev,
       p_Ty := createModel env tx new_mean new_stddev new_peak\<rparr>"


section \<open>The global fitter\<close>

text \<open>
  A method that raises leaves the object as it was at the raise: the methods that
  mutate return the exception, if any, together with the state.
\<close>

type_synonym outcome = "py_exception option \<times> Spectra"

text \<open>The loop \<^verbatim>\<open>for p in self.peaks: self.Ty += p.Ty\<close>.\<close>

fun sum_curves :: "Peak list \<Rightarrow> real list \<Rightarrow> py_exception option \<times> real list" where
  "sum_curves [] ty = (None, ty)"
| "sum_curves (p # rest) ty =
     (case np_iadd ty (p_Ty p) of
        Inl e \<Rightarrow> (Some e, ty)
      | Inr ty' \<Rightarrow> sum_curves rest ty')"

definition updateModel :: "collaborators \<Rightarrow> Spectra \<Rightarrow> real list \<Rightarrow> outcome" where
  "updateModel env s params =
     (case peaks s of
        None \<Rightarrow> (Some (TypeError ''object of type NoneType has no len()''), s)
      | Some ps \<Rightarrow>
          if length params \<noteq> length ps
          then (Some (ValueError ''Unexpected number of parameters''), s)
          else
            let ps' = map (\<lambda>i. let new_mean = p_mean (ps ! i);
                                    new_peak = params ! i;
                                    new_stddev = p_stddev (ps ! i)
                                in Peak_updateModel env (Tx s) (ps ! i) new_mean new_peak new_stddev)
                          [0..<length ps];
                s1 = s\<lparr>peaks := Some ps', Ty := map (\<lambda>_. 0) (Tx s)\<rparr>
            in case sum_curves ps' (Ty s1) of
                 (exn, ty) \<Rightarrow> (exn, s1\<lparr>Ty := ty\<rparr>))"

text \<open>
  The loop of \<^verbatim>\<open>_residuals\<close> that accumulates the model curve, over
  \<^verbatim>\<open>enumerate(self.peaks)\<close>.
\<close>

fun model_loop ::
  "collaborators \<Rightarrow> real list \<Rightarrow> real list \<Rightarrow> (nat \<times> Peak) list \<Rightarrow> real list
     \<Rightarrow> py_exception + real list" where
  "model_loop env tx params [] model = Inr model"
| "model_loop env tx params ((i, peak) # rest) model =
     (let new_stddev = p_stddev peak;
          new_peak = params ! i;
          pdist = createModel env tx (p_mean peak) new_stddev new_peak;
          pdist = (if p_mean peak - 2 * new_stddev < 1 then map (\<lambda>v. v * 1000) pdist else pdist)
      in case np_iadd model pdist of
           Inl e \<Rightarrow> Inl e
         | Inr model' \<Rightarrow> model_loop env tx params rest model')"

text \<open>The body of \<^verbatim>\<open>for i in range(len(residuals))\<close>, which rewrites the array in place.\<close>

definition penalise :: "nat \<Rightarrow> nat \<Rightarrow> real list \<Rightarrow> real list" where
  "penalise npeaks i residuals =
     (let d = residuals ! i;
          residuals = (if d < 0 then residuals[i := d * real npeaks] else residuals);
          residuals = (if i < 5 then residuals[i := 0] else residuals)
      in residuals)"

definition residuals :: "collaborators \<Rightarrow> Spectra \<Rightarrow> real list \<Rightarrow> py_exception + real list" where
  "residuals env s params =
     (case peaks s of
        None \<Rightarrow> Inl (TypeError ''object of type NoneType has no len()'')
      | Some ps \<Rightarrow>
          if length params \<noteq> length ps
          then Inl (ValueError ''Unexpected number of parameters'')
          else
            (case model_loop env (Tx s) params (enumerate 0 ps) (map (\<lambda>_. 0) (Tx s)) of
               Inl e \<Rightarrow> Inl e
             | Inr model \<Rightarrow>
                 (case realTy s of
                    None \<Rightarrow> Inl (AttributeError ''object has no attribute realTy'')
                  | Some rty \<Rightarrow>
                      (case np_sub rty model of
                         Inl e \<Rightarrow> Inl e
                       | Inr res \<Rightarrow> Inr (fold (penalise (length ps)) [0..<length res] res)))))"

definition optimise :: "collaborators \<Rightarrow> Spectra \<Rightarrow> outcome" where
  "optimise env s =
     (case peaks s of
        None \<Rightarrow> (Some (ValueError ''Can't optimise peaks because none are defined.''), s)
      | Some ps \<Rightarrow>
          if ps = []
          then (Some (ValueError ''Can't optimise peaks because none are defined.''), s)
          else
            let params = map p_peak ps;
                lower_bounds = map (\<lambda>p. 0) ps;
                upper_bounds = map p_peak ps;
                s1 = s\<lparr>Tx := linspace0 (length (histogram s)), realTy := Some (histogram s)\<rparr>
            in (case least_squares env (residuals env s1) params lower_bounds upper_bounds of
                  Inl e \<Rightarrow> (Some e, s1)
                | Inr res \<Rightarrow>
                    if r_success res
                    then (case updateModel env s1 (r_x res) of
                            (Some e, s2) \<Rightarrow> (Some e, s2)
                          | (None, s2) \<Rightarrow>
                              (None, s2\<lparr>stdout := stdout s2 @ [line (str_nat (r_nfev res))]\<rparr>))
                    else (None, s1)))"

section \<open>The orchestrator\<close>

definition print_out :: "string \<Rightarrow> Spectra \<Rightarrow> Spectra" where
  "print_out t s = s\<lparr>stdout := stdout s @ [t]\<rparr>"

definition print_err :: "string \<Rightarrow> Spectra \<Rightarrow> Spectra" where
  "print_err t s = s\<lparr>stderr := stderr s @ [t]\<rparr>"

definition printPeaks :: "collaborators \<Rightarrow> Spectra \<Rightarrow> outcome" where
  "printPeaks env s =
     (case peaks s of
        None \<Rightarrow> (Some (TypeError ''object of type NoneType has no len()''), s)
      | Some ps \<Rightarrow>
          if length ps > 0 then (None, print_out (line (tabulate env ps)) s)
          else (None, print_out (line ''No peaks detected'') s))"

text \<open>The loop \<^verbatim>\<open>for p_i, p in enumerate(self.peaks): p.optimise(self.histogram)\<close>;
  the peaks before a raising one keep their refined values.\<close>

fun refine_loop ::
  "collaborators \<Rightarrow> real list \<Rightarrow> Peak list \<Rightarrow> py_exception option \<times> Peak list" where
  "refine_loop env h [] = (None, [])"
| "refine_loop env h (p # rest) =
     (case Peak_optimise env p h of
        Inl e \<Rightarrow> (Some e, p # rest)
      | Inr p' \<Rightarrow> (case refine_loop env h rest of (exn, rest') \<Rightarrow> (exn, p' # rest')))"

definition warning_text :: string where
  "warning_text = ''WARNING: problem optimising peaks. It is likely that the spectra is too complex to analyse properly.  Output for this spectra may not be valid.''"

text \<open>The \<^verbatim>\<open>try\<close> block of \<^verbatim>\<open>analyse\<close> with its handler.\<close>

definition try_optimise :: "collaborators \<Rightarrow> bool \<Rightarrow> Spectra \<Rightarrow> outcome" where
  "try_optimise env verbose s =
     (let (exn, s1) =
        (case optimise env s of
           (Some e, s1) \<Rightarrow> (Some e, s1)
         | (None, s1) \<Rightarrow>
             if verbose
             then printPeaks env (print_out (line []) (print_out (line ''done.'') s1))
             else (None, s1))
      in case exn of
           None \<Rightarrow> (None, s1)
         | Some inst \<Rightarrow> (None, print_err (line (str_exception inst)) (print_err (line warning_text) s1)))"

text \<open>
  \<^verbatim>\<open>analyse\<close> up to the \<^verbatim>\<open>try\<close> block, for a spectrum whose initial peaks exist:
  local refinement of each peak, then pruning by volume.
\<close>

definition refine_and_prune :: "collaborators \<Rightarrow> real \<Rightarrow> bool \<Rightarrow> Peak list \<Rightarrow> Spectra \<Rightarrow> outcome" where
  "refine_and_prune env min_elements verbose ps s =
     (let s1 = (if verbose
                then print_out (line []) (print_out
                       (line (''done. '' @ str_nat (length ps) @ '' peaks initially created'')) s)
                else s)
      in (case (if verbose then printPeaks env s1 else (None, s1)) of
            (Some e, s2) \<Rightarrow> (Some e, s2)
          | (None, s2) \<Rightarrow>
              (let s3 = (if verbose
                         then print_out ''Locally optimising each peak ... '' (print_out (line []) s2)
                         else s2)
               in (case refine_loop env (histogram s3) ps of
                     (Some e, ps') \<Rightarrow> (Some e, s3\<lparr>peaks := Some ps'\<rparr>)
                   | (None, ps') \<Rightarrow>
                       (let s4 = s3\<lparr>peaks := Some (filter (\<lambda>p. elements p \<ge> min_elements) ps')\<rparr>
                        in if verbose
                           then (case printPeaks env (print_out (line []) (print_out (line ''done.'') s4)) of
                                   (Some e, s5) \<Rightarrow> (Some e, s5)
                                 | (None, s5) \<Rightarrow>
                                     (None, print_out
                                        ''Fitting cumulative distribution to histogram by adjusting peaks ... ''
                                        (print_out (line []) s5)))
                           else (None, s4))))))"

text \<open>
  \<^verbatim>\<open>Spectra.analyse\<close>. The abstract method \<^verbatim>\<open>_createInitialPeaks\<close> is the
  parameter \<open>locate\<close>.
\<close>

definition analyse ::
  "collaborators \<Rightarrow> (Spectra \<Rightarrow> outcome) \<Rightarrow> real \<Rightarrow> bool \<Rightarrow> Spectra \<Rightarrow> outcome" where
  "analyse env locate min_elements verbose s =
     (let s0 = (if verbose
                then print_out ''Creating initial peaks ... '' (print_out (line []) s)
                else s)
      in case locate s0 of
           (Some e, s1) \<Rightarrow> (Some e, s1)
         | (None, s1) \<Rightarrow>
             (case peaks s1 of
                Some (p # rest) \<Rightarrow>
                  (case refine_and_prune env min_elements verbose (p # rest) s1 of
                     (Some e, s2) \<Rightarrow> (Some e, s2)
                   | (None, s2) \<Rightarrow> try_optimise env verbose s2)
              | _ \<Rightarrow>
                  if verbose then (None, print_out (line ''done. No peaks created'') s1)
                  else (None, s1)))"

section \<open>Genome metrics\<close>

text \<open>The loop of \<^verbatim>\<open>getHomozygousPeakIndex\<close> for a given approximate frequency.\<close>

fun closest_loop :: "real \<Rightarrow> (nat \<times> Peak) list \<Rightarrow> nat \<Rightarrow> real \<Rightarrow> nat" where
  "closest_loop approx_freq [] min_peak_index delta_peak_freq = min_peak_index"
| "closest_loop approx_freq ((p_i, p) # rest) min_peak_index delta_peak_freq =
     (let delta = \<bar>p_mean p - approx_freq\<bar>
      in if delta_peak_freq > delta
         then closest_loop approx_freq rest p_i delta
         else closest_loop approx_freq rest min_peak_index delta_peak_freq)"

text \<open>The loop of the other branch, which returns from inside; \<open>None\<close> when it runs out.\<close>

fun primary_loop :: "nat \<Rightarrow> (nat \<times> Peak) list \<Rightarrow> nat option" where
  "primary_loop fm [] = None"
| "primary_loop fm ((i, p) # rest) =
     (if \<bar>p_mean p - real fm\<bar> < 1 then Some i else primary_loop fm rest)"

definition getHomozygousPeakIndex :: "Spectra \<Rightarrow> real \<Rightarrow> py_exception + nat" where
  "getHomozygousPeakIndex s approx_freq =
     (case peaks s of
        None \<Rightarrow> Inl (TypeError ''NoneType object is not iterable'')
      | Some ps \<Rightarrow>
          if approx_freq > 0
          then Inr (closest_loop approx_freq (enumerate 1 ps) 0 1000000)
          else (case primary_loop (fmax s) (enumerate 1 ps) of
                  Some i \<Rightarrow> Inr i
                | None \<Rightarrow> Inr 0))"

definition calcKmerCoverage :: "float_ops \<Rightarrow> Spectra \<Rightarrow> py_exception + int" where
  "calcKmerCoverage A s =
     (case peaks s of
        None \<Rightarrow> Inl (TypeError ''NoneType object is not iterable'')
      | Some ps \<Rightarrow>
          let tot_vol = py_sum A (map elements ps);
              weighted = py_sum A (map (\<lambda>x. fl A (p_mean x * elements x)) ps)
          in Inr (if tot_vol > 0 then py_int (fl A (weighted / tot_vol)) else 0))"

section \<open>The specification's wording of the initial peaks\<close>

text \<open>
  The candidate list, the acceptance test and the emitted peak as the specification
  words them: \<open>sigma = sqrt(mu)\<close>, \<open>radius = floor(2 * sigma)\<close>, \<open>mean = floor(mu)\<close>.
  They are compared with the loop of \<^const>\<open>createInitialPeaks\<close> below.
\<close>

definition spec_candidates :: "bool \<Rightarrow> nat \<Rightarrow> real list" where
  "spec_candidates hap fm =
     (if hap then [] else [real fm / 2]) @ [real (fm * 1), real (fm * 2), real (fm * 3), real (fm * 4)]"

definition spec_accept :: "real list \<Rightarrow> nat \<Rightarrow> real \<Rightarrow> bool" where
  "spec_accept h fmn mu =
     (\<lfloor>2 * sqrt mu\<rfloor> \<ge> 2 \<and> \<lfloor>mu\<rfloor> > int fmn \<and> mu - real_of_int \<lfloor>2 * sqrt mu\<rfloor> > 0
      \<and> mu + real_of_int \<lfloor>2 * sqrt mu\<rfloor> < real (length h))"

definition spec_peak :: "real list \<Rightarrow> nat \<Rightarrow> real \<Rightarrow> Peak" where
  "spec_peak h fm mu =
     \<lparr>p_mean = real_of_int \<lfloor>mu\<rfloor>, p_stddev = sqrt mu, p_peak = h ! nat \<lfloor>mu\<rfloor>,
      p_primary = (\<lfloor>mu\<rfloor> = int fm), p_Ty = [], p_description = []\<rparr>"

section \<open>Contracts of the collaborators and the specification's wording of the residuals\<close>

text \<open>
  Modelled from the spec: \<^verbatim>\<open>createModel\<close> of \<^verbatim>\<open>kat/peak.py\<close> samples the curve of
  a peak on the domain it is given, one sample for each bin.
\<close>

definition curves_on_domain :: "collaborators \<Rightarrow> bool" where
  "curves_on_domain env =
     (\<forall>tx m sd hgt. length (createModel env tx m sd hgt) = length tx)"

text \<open>
  The contract of scipy's \<^verbatim>\<open>least_squares\<close> with \<^verbatim>\<open>bounds=(lb, ub)\<close>: a result
  has the shape of \<^verbatim>\<open>x0\<close> and lies inside the bounds.
\<close>

definition solver_in_bounds :: "collaborators \<Rightarrow> bool" where
  "solver_in_bounds env =
     (\<forall>f x0 lb ub res. least_squares env f x0 lb ub = Inr res \<longrightarrow>
        length (r_x res) = length x0
        \<and> (\<forall>i < length x0. lb ! i \<le> r_x res ! i \<and> r_x res ! i \<le> ub ! i))"

text \<open>
  The residual at bin \<open>i\<close> as the specification words it: the histogram minus the sum
  of the peaks' curves, each at its own mean and standard deviation and the candidate
  height, a curve counted 1000 times when \<open>mean - 2 stddev < 1\<close>; a negative
  difference is multiplied by the number of peaks; the first five bins are 0.
\<close>

definition spec_model :: "collaborators \<Rightarrow> real list \<Rightarrow> Peak list \<Rightarrow> real list \<Rightarrow> nat \<Rightarrow> real" where
  "spec_model env tx ps params i =
     (\<Sum>(j, p)\<leftarrow>enumerate 0 ps.
        (if p_mean p - 2 * p_stddev p < 1 then 1000 else 1)
        * (createModel env tx (p_mean p) (p_stddev p) (params ! j) ! i))"

definition spec_residual ::
  "collaborators \<Rightarrow> real list \<Rightarrow> Peak list \<Rightarrow> real list \<Rightarrow> real list \<Rightarrow> nat \<Rightarrow> real" where
  "spec_residual env tx ps params actual i =
     (if i < 5 then 0
      else if actual ! i - spec_model env tx ps params i < 0
           then (actual ! i - spec_model env tx ps params i) * real (length ps)
           else actual ! i - spec_model env tx ps params i)"

text \<open>
  Two abbreviations for the proofs: the contribution of one enumerated peak to the model
  at a bin, and what the penalty loop makes of the difference at a bin.
\<close>

definition contrib :: "collaborators \<Rightarrow> real list \<Rightarrow> real list \<Rightarrow> nat \<times> Peak \<Rightarrow> nat \<Rightarrow> real" where
  "contrib env tx params jp i =
     (case jp of (j, p) \<Rightarrow>
        (if p_mean p - 2 * p_stddev p < 1 then 1000 else 1)
        * (createModel env tx (p_mean p) (p_stddev p) (params ! j) ! i))"

definition penalty :: "nat \<Rightarrow> nat \<Rightarrow> real \<Rightarrow> real" where
  "penalty n i d = (if i < 5 then 0 else if d < 0 then d * real n else d)"


text \<open>
  The peaks after \<^verbatim>\<open>_updateModel\<close> has written a parameter vector back, and the
  state in which \<^verbatim>\<open>optimise\<close> calls the solver.
\<close>

definition written_back :: "collaborators \<Rightarrow> real list \<Rightarrow> Peak list \<Rightarrow> real list \<Rightarrow> Peak list" where
  "written_back env tx ps params =
     map (\<lambda>i. Peak_updateModel env tx (ps ! i) (p_mean (ps ! i)) (params ! i) (p_stddev (ps ! i)))
       [0..<length ps]"

definition fit_state :: "Spectra \<Rightarrow> Spectra" where
  "fit_state s = s\<lparr>Tx := linspace0 (length (histogram s)), realTy := Some (histogram s)\<rparr>"


text \<open>
  The sum of float64 values as the specification's \<open>sum(...)\<close> is computed: the
  running total is rounded after each addition.
\<close>

definition float_total :: "float_ops \<Rightarrow> real list \<Rightarrow> real" where
  "float_total A xs = foldl (\<lambda>acc v. fl A (acc + v)) 0 xs"

section \<open>Example inputs\<close>

definition example_spectra :: "real list \<Rightarrow> bool \<Rightarrow> Spectra" where
  "example_spectra h hap =
     \<lparr>histogram = h, kval = 27, peaks = None, Tx = linspace0 (length h),
      Ty = map (\<lambda>_. 0) h, realTy = None, haploid = hap, fmax = 0, fmin = 0,
      stdout = [], stderr = []\<rparr>"

text \<open>A histogram with its first trough at bin 1 and its mode at bin 10.\<close>

definition h30 :: "real list" where
  "h30 = [5,1,2,3,4,5,6,7,8,9,20,9,8,7,6,5,4,3,2,1,1,1,1,1,1,1,1,1,1,1]"

text \<open>A histogram that only falls, and one whose mode after the trough is at bin 4.\<close>

definition h_falling :: "real list" where
  "h_falling = [9,8,7,6,5,4,3,2,1,0]"

definition h_short :: "real list" where
  "h_short = [5,1,2,3,4]"

text \<open>A fitted spectrum with three peaks at bins 5, 10 and 15 and its mode at bin 10.\<close>

definition example_peak :: "real \<Rightarrow> real \<Rightarrow> real list \<Rightarrow> Peak" where
  "example_peak m hgt ty =
     \<lparr>p_mean = m, p_stddev = 1, p_peak = hgt, p_primary = False, p_Ty = ty,
      p_description = []\<rparr>"

definition example_fitted :: "Peak list \<Rightarrow> Spectra" where
  "example_fitted ps = (example_spectra h30 False)\<lparr>peaks := Some ps, fmax := 10, fmin := 1\<rparr>"

definition three_peaks :: "Peak list" where
  "three_peaks = [example_peak 5 5 [1, 2, 1], example_peak 10 20 [4, 8, 4], example_peak 15 5 [1, 1]]"


text \<open>
  Collaborators for the examples: a box-shaped curve of the given height within one
  standard deviation of the mean; a local refinement that gives the peak its curve on
  the histogram's domain; a solver that rejects bounds that are not strictly ordered, as
  scipy does, and otherwise answers the midpoint of the bounds.
\<close>

definition example_createModel :: "real list \<Rightarrow> real \<Rightarrow> real \<Rightarrow> real \<Rightarrow> real list" where
  "example_createModel tx m sd hgt = map (\<lambda>v. if \<bar>v - m\<bar> \<le> sd then hgt else 0) tx"

definition example_least_squares ::
  "(real list \<Rightarrow> py_exception + real list) \<Rightarrow> real list \<Rightarrow> real list \<Rightarrow> real list
     \<Rightarrow> py_exception + OptimizeResult" where
  "example_least_squares f x0 lb ub =
     (if length lb = length x0 \<and> length ub = length x0 \<and> list_all2 (<) lb ub
      then Inr \<lparr>r_success = True, r_x = map2 (\<lambda>l u. (l + u) / 2) lb ub, r_nfev = 1\<rparr>
      else Inl (ValueError ''Each lower bound must be strictly less than each upper bound.''))"

definition example_env :: collaborators where
  "example_env =
     \<lparr>createModel = example_createModel,
      Peak_optimise = (\<lambda>p h. Inr (p\<lparr>p_Ty := example_createModel (linspace0 (length h))
                                          (p_mean p) (p_stddev p) (p_peak p)\<rparr>)),
      least_squares = example_least_squares,
      tabulate = (\<lambda>ps. [])\<rparr>"

text \<open>A spectrum of eight bins in the state in which the solver calls the residuals.\<close>

definition h8 :: "real list" where
  "h8 = [9, 1, 2, 3, 10, 3, 2, 20]"

definition fit_peaks :: "Peak list" where
  "fit_peaks =
     [\<lparr>p_mean = 6, p_stddev = 1, p_peak = 12, p_primary = True, p_Ty = [], p_description = []\<rparr>,
      \<lparr>p_mean = 6, p_stddev = 3, p_peak = 2, p_primary = False, p_Ty = [], p_description = []\<rparr>]"

definition example_fit :: Spectra where
  "example_fit =
     (example_spectra h8 False)\<lparr>peaks := Some fit_peaks, realTy := Some h8\<rparr>"

text \<open>The histogram \<^const>\<open>h30\<close> with an empty bin 20, where the third initial peak sits.\<close>

definition h30z :: "real list" where
  "h30z = [5,1,2,3,4,5,6,7,8,9,20,9,8,7,6,5,4,3,2,1,0,1,1,1,1,1,1,1,1,1]"

text \<open>The primary-content strategy as the locator of \<^const>\<open>analyse\<close>; it raises nothing.\<close>

definition kmer_locate :: "Spectra \<Rightarrow> outcome" where
  "kmer_locate s = (None, createInitialPeaks s)"


section \<open>Properties of the initial peak locator\<close>

lemma py_int_nonneg: "0 \<le> v \<Longrightarrow> py_int v = \<lfloor>v\<rfloor>"
  by (simp add: py_int_def)

lemma frequencies_eq: "frequencies hap fm = spec_candidates hap fm"
  by (simp add: frequencies_def spec_candidates_def upt_rec)

lemma spec_candidates_nonneg: "\<forall>mu \<in> set (spec_candidates hap fm). 0 \<le> mu"
  by (simp add: spec_candidates_def)

lemma length_candidates: "length (spec_candidates hap fm) = (if hap then 4 else 5)"
  by (simp add: spec_candidates_def)

lemma candidate_step_spec:
  assumes "0 \<le> mu"
  shows "candidate_step h fmn fm mu ps =
         (if spec_accept h fmn mu then ps @ [spec_peak h fm mu] else ps)"
proof -
  have "py_int (sqrt mu * 2) = \<lfloor>2 * sqrt mu\<rfloor>"
    using assms by (simp add: py_int_nonneg mult.commute)
  moreover have "py_int mu = \<lfloor>mu\<rfloor>"
    using assms by (simp add: py_int_nonneg)
  ultimately show ?thesis
    by (simp add: candidate_step_def spec_accept_def spec_peak_def new_Peak_def Let_def)
qed

lemma fold_candidate_step:
  assumes "\<forall>mu \<in> set fs. 0 \<le> mu"
  shows "fold (candidate_step h fmn fm) fs acc =
         acc @ map (spec_peak h fm) (filter (spec_accept h fmn) fs)"
  using assms
proof (induction fs arbitrary: acc)
  case Nil
  show ?case by simp
next
  case (Cons mu fs)
  have "0 \<le> mu" using Cons.prems by simp
  then show ?case using Cons by (simp add: candidate_step_spec)
qed

lemma accept_in_range:
  assumes "spec_accept h fmn mu"
  shows "nat \<lfloor>mu\<rfloor> < length h"
proof -
  have r: "2 \<le> \<lfloor>2 * sqrt mu\<rfloor>"
    and l: "mu - real_of_int \<lfloor>2 * sqrt mu\<rfloor> > 0"
    and u: "mu + real_of_int \<lfloor>2 * sqrt mu\<rfloor> < real (length h)"
    using assms unfolding spec_accept_def by blast+
  have "0 \<le> mu" using r l by linarith
  then have "0 \<le> \<lfloor>mu\<rfloor>" by simp
  moreover have "real_of_int \<lfloor>mu\<rfloor> \<le> mu" by (rule of_int_floor_le)
  moreover have "mu < real (length h)" using r u by linarith
  ultimately show ?thesis by linarith
qed

lemma spec_peak_inj:
  assumes "0 \<le> a" and "0 \<le> b" and "spec_peak h fm a = spec_peak h fm b"
  shows "a = b"
proof -
  have "sqrt a = sqrt b" using assms(3) by (simp add: spec_peak_def)
  then show ?thesis by simp
qed

lemma createInitialPeaks_fmin:
  "fmin (createInitialPeaks s) = scan_fmin (histogram s) [1..<length (histogram s) - 2]"
  by (simp add: createInitialPeaks_def Let_def)

lemma createInitialPeaks_fmax:
  "fmax (createInitialPeaks s) =
     (if fmin (createInitialPeaks s) = 0 then 0
      else np_argmax (drop (fmin (createInitialPeaks s)) (histogram s))
           + fmin (createInitialPeaks s))"
  by (simp add: createInitialPeaks_def Let_def)

lemma createInitialPeaks_peaks:
  "peaks (createInitialPeaks s) =
     (if fmax (createInitialPeaks s) < 10 then None
      else Some (fold (candidate_step (histogram s) (fmin (createInitialPeaks s))
                         (fmax (createInitialPeaks s)))
                   (frequencies (haploid s) (fmax (createInitialPeaks s))) []))"
  by (simp add: createInitialPeaks_def Let_def)

lemma createInitialPeaks_emitted:
  assumes "10 \<le> fmax (createInitialPeaks s)"
  shows "peaks (createInitialPeaks s) =
           Some (map (spec_peak (histogram s) (fmax (createInitialPeaks s)))
                  (filter (spec_accept (histogram s) (fmin (createInitialPeaks s)))
                     (spec_candidates (haploid s) (fmax (createInitialPeaks s)))))"
  using assms
  by (simp add: createInitialPeaks_peaks frequencies_eq fold_candidate_step spec_candidates_nonneg)

lemma scan_fmin_none:
  "\<forall>i \<in> set js. \<not> (h ! i < h ! (i + 1) \<and> h ! i < h ! (i + 2)) \<Longrightarrow> scan_fmin h js = 0"
  by (induction js) auto

lemma floor_two_sqrt:
  assumes "0 \<le> r" and "(real_of_int r)\<^sup>2 \<le> 4 * v" and "4 * v < (real_of_int r + 1)\<^sup>2"
  shows "\<lfloor>2 * sqrt v\<rfloor> = r"
proof -
  have e: "2 * sqrt v = sqrt (4 * v)" by (simp add: real_sqrt_mult)
  have "real_of_int r \<le> sqrt (4 * v)" using assms(2) by (rule real_le_rsqrt)
  moreover have "sqrt (4 * v) < real_of_int r + 1"
    using assms(1,3) by (intro real_less_lsqrt) simp_all
  ultimately show ?thesis unfolding e by (intro floor_unique) simp_all
qed

lemma floor_two_sqrt_examples:
  "\<lfloor>2 * sqrt 5\<rfloor> = 4" "\<lfloor>2 * sqrt 10\<rfloor> = 6" "\<lfloor>2 * sqrt 20\<rfloor> = 8"
  "\<lfloor>2 * sqrt 30\<rfloor> = 10" "\<lfloor>2 * sqrt 40\<rfloor> = 12"
  by (rule floor_two_sqrt; simp add: power2_eq_square)+

lemma example_h30_fmin: "fmin (createInitialPeaks (example_spectra h30 hap)) = 1"
  by (simp add: createInitialPeaks_fmin example_spectra_def h30_def upt_rec)

lemma example_h30_fmax: "fmax (createInitialPeaks (example_spectra h30 hap)) = 10"
  by (simp add: createInitialPeaks_fmax example_h30_fmin)
     (simp add: example_spectra_def h30_def np_argmax_def upt_rec)

lemma example_spectra_fields:
  "histogram (example_spectra h hap) = h" "haploid (example_spectra h hap) = hap"
  by (simp_all add: example_spectra_def)

text \<open>
  Claim C1. In the primary-content strategy the candidate list is built when the mode
  \<open>fmax\<close> is at least 10. Then the emitted peaks are, in the order of the candidates
  \<open>fmax/2\<close> (left out when haploid), \<open>fmax\<close>, \<open>2 fmax\<close>, \<open>3 fmax\<close>, \<open>4 fmax\<close>, one peak
  for each candidate \<open>mu\<close> with \<open>floor(2 sqrt mu) \<ge> 2\<close>, \<open>floor mu > fmin\<close>,
  \<open>mu - radius > 0\<close> and \<open>mu + radius < len\<close>, and no other: a candidate has its peak in
  the set if and only if it passes the four tests. Each emitted peak has the histogram
  value at bin \<open>mean\<close> as its height, read inside the histogram, and is primary exactly
  when its mean is \<open>fmax\<close>.
\<close>

theorem initial_peaks_are_accepted_candidates:
  assumes "10 \<le> fmax (createInitialPeaks s)"
  shows "\<exists>ps. peaks (createInitialPeaks s) = Some ps
          \<and> ps = map (spec_peak (histogram s) (fmax (createInitialPeaks s)))
                    (filter (spec_accept (histogram s) (fmin (createInitialPeaks s)))
                       (spec_candidates (haploid s) (fmax (createInitialPeaks s))))
          \<and> (\<forall>mu \<in> set (spec_candidates (haploid s) (fmax (createInitialPeaks s))).
                (spec_peak (histogram s) (fmax (createInitialPeaks s)) mu \<in> set ps)
                = spec_accept (histogram s) (fmin (createInitialPeaks s)) mu)
          \<and> (\<forall>p \<in> set ps.
                nat \<lfloor>p_mean p\<rfloor> < length (histogram s)
                \<and> p_peak p = histogram s ! nat \<lfloor>p_mean p\<rfloor>
                \<and> p_primary p = (p_mean p = real (fmax (createInitialPeaks s))))"
proof -
  define h where "h = histogram s"
  define fm where "fm = fmax (createInitialPeaks s)"
  define fmn where "fmn = fmin (createInitialPeaks s)"
  define cs where "cs = spec_candidates (haploid s) fm"
  define ps where "ps = map (spec_peak h fm) (filter (spec_accept h fmn) cs)"
  have nonneg: "\<And>mu. mu \<in> set cs \<Longrightarrow> 0 \<le> mu"
    unfolding cs_def using spec_candidates_nonneg by blast
  have e: "peaks (createInitialPeaks s) = Some ps"
    unfolding ps_def cs_def h_def fm_def fmn_def using assms by (rule createInitialPeaks_emitted)
  have iff: "\<forall>mu \<in> set cs. (spec_peak h fm mu \<in> set ps) = spec_accept h fmn mu"
  proof
    fix mu assume mu: "mu \<in> set cs"
    show "(spec_peak h fm mu \<in> set ps) = spec_accept h fmn mu"
    proof
      assume "spec_peak h fm mu \<in> set ps"
      then obtain mu' where m': "mu' \<in> set cs" "spec_accept h fmn mu'"
        and eq: "spec_peak h fm mu' = spec_peak h fm mu"
        unfolding ps_def by auto
      have "mu' = mu" using nonneg [OF m'(1)] nonneg [OF mu] eq by (rule spec_peak_inj)
      then show "spec_accept h fmn mu" using m'(2) by simp
    next
      assume "spec_accept h fmn mu"
      then show "spec_peak h fm mu \<in> set ps" unfolding ps_def using mu by simp
    qed
  qed
  have each: "\<forall>p \<in> set ps. nat \<lfloor>p_mean p\<rfloor> < length h \<and> p_peak p = h ! nat \<lfloor>p_mean p\<rfloor>
          \<and> p_primary p = (p_mean p = real fm)"
  proof
    fix p assume "p \<in> set ps"
    then obtain mu where acc: "spec_accept h fmn mu" and p: "p = spec_peak h fm mu"
      unfolding ps_def by auto
    have "nat \<lfloor>mu\<rfloor> < length h" using acc by (rule accept_in_range)
    moreover have "(real_of_int \<lfloor>mu\<rfloor> = real fm) = (\<lfloor>mu\<rfloor> = int fm)"
      by (metis of_int_eq_iff of_int_of_nat_eq)
    ultimately show "nat \<lfloor>p_mean p\<rfloor> < length h \<and> p_peak p = h ! nat \<lfloor>p_mean p\<rfloor>
          \<and> p_primary p = (p_mean p = real fm)"
      unfolding p by (simp add: spec_peak_def)
  qed
  show ?thesis
    using e iff each unfolding ps_def cs_def h_def fm_def fmn_def by blast
qed

theorem initial_peaks_are_accepted_candidates_witness:
  "10 \<le> fmax (createInitialPeaks (example_spectra h30 False)) \<and>
   peaks (createInitialPeaks (example_spectra h30 False)) =
     Some [new_Peak 5 (sqrt 5) 5 False, new_Peak 10 (sqrt 10) 20 True,
           new_Peak 20 (sqrt 20) 1 False]"
proof -
  have f: "10 \<le> fmax (createInitialPeaks (example_spectra h30 False))"
    by (simp add: example_h30_fmax)
  show ?thesis
    using initial_peaks_are_accepted_candidates [OF f]
    by (simp add: example_h30_fmax example_h30_fmin example_spectra_fields spec_candidates_def
          spec_accept_def spec_peak_def new_Peak_def floor_two_sqrt_examples)
       (simp add: h30_def)
qed

text \<open>
  Claim C5. When no index \<open>i\<close> of the scan \<open>1 \<le> i < len - 2\<close> has
  \<open>h[i] < h[i+1]\<close> and \<open>h[i] < h[i+2]\<close>, \<open>fmin\<close> is 0 after the call and the peak set is
  \<^verbatim>\<open>None\<close>; and whenever the computed \<open>fmax\<close> is below 10 the peak set is \<^verbatim>\<open>None\<close>.
\<close>

theorem no_minimum_or_low_fmax_gives_no_peaks:
  "((\<forall>i \<in> set [1..<length (histogram s) - 2].
        \<not> (histogram s ! i < histogram s ! (i + 1) \<and> histogram s ! i < histogram s ! (i + 2)))
      \<longrightarrow> fmin (createInitialPeaks s) = 0 \<and> peaks (createInitialPeaks s) = None)
   \<and> (fmax (createInitialPeaks s) < 10 \<longrightarrow> peaks (createInitialPeaks s) = None)"
proof (intro conjI impI)
  assume a: "\<forall>i \<in> set [1..<length (histogram s) - 2].
        \<not> (histogram s ! i < histogram s ! (i + 1) \<and> histogram s ! i < histogram s ! (i + 2))"
  show "fmin (createInitialPeaks s) = 0"
    using scan_fmin_none [OF a] by (simp add: createInitialPeaks_fmin)
  then have "fmax (createInitialPeaks s) = 0"
    by (simp add: createInitialPeaks_fmax)
  then show "peaks (createInitialPeaks s) = None"
    by (simp add: createInitialPeaks_peaks)
next
  assume "fmax (createInitialPeaks s) < 10"
  then show "peaks (createInitialPeaks s) = None"
    by (simp add: createInitialPeaks_peaks)
qed

theorem no_minimum_or_low_fmax_gives_no_peaks_witness:
  "fmin (createInitialPeaks (example_spectra h_falling False)) = 0
   \<and> peaks (createInitialPeaks (example_spectra h_falling False)) = None
   \<and> fmin (createInitialPeaks (example_spectra h_short False)) = 1
   \<and> fmax (createInitialPeaks (example_spectra h_short False)) = 4
   \<and> peaks (createInitialPeaks (example_spectra h_short False)) = None"
proof -
  have a: "\<forall>i \<in> set [1..<length h_falling - 2].
       \<not> (h_falling ! i < h_falling ! (i + 1) \<and> h_falling ! i < h_falling ! (i + 2))"
    by (simp add: h_falling_def upt_rec)
  have n: "fmin (createInitialPeaks (example_spectra h_short False)) = 1"
    by (simp add: createInitialPeaks_fmin example_spectra_def h_short_def upt_rec)
  have m: "fmax (createInitialPeaks (example_spectra h_short False)) = 4"
    by (simp add: createInitialPeaks_fmax n)
       (simp add: example_spectra_def h_short_def np_argmax_def upt_rec)
  show ?thesis
    using a n m
      no_minimum_or_low_fmax_gives_no_peaks [of "example_spectra h_falling False"]
      no_minimum_or_low_fmax_gives_no_peaks [of "example_spectra h_short False"]
    by (simp add: example_spectra_fields)
qed

lemma candidates_means_sorted:
  assumes "10 \<le> fm"
  shows "sorted_wrt (\<lambda>a b. \<lfloor>a\<rfloor> < \<lfloor>b\<rfloor>) (spec_candidates hap fm)"
proof -
  have h: "\<lfloor>real fm / 2\<rfloor> < int fm" using assms by linarith
  have m: "\<lfloor>real fm * 2\<rfloor> = int fm * 2" "\<lfloor>real fm * 3\<rfloor> = int fm * 3"
    "\<lfloor>real fm * 4\<rfloor> = int fm * 4"
    by linarith+
  show ?thesis using assms h by (simp add: spec_candidates_def m)
qed

text \<open>
  Claim C9. The primary-content strategy emits at most five peaks, at most four when
  the genome is haploid, and the emitted peaks are in strictly increasing order of
  their means.
\<close>

theorem initial_peaks_few_and_increasing:
  assumes "peaks (createInitialPeaks s) = Some ps"
  shows "length ps \<le> (if haploid s then 4 else 5) \<and> sorted_wrt (<) (map p_mean ps)"
proof -
  let ?s' = "createInitialPeaks s"
  let ?cs = "spec_candidates (haploid s) (fmax ?s')"
  let ?ok = "spec_accept (histogram s) (fmin ?s')"
  have f: "10 \<le> fmax ?s'"
    using assms by (simp add: createInitialPeaks_peaks split: if_splits)
  have ps: "ps = map (spec_peak (histogram s) (fmax ?s')) (filter ?ok ?cs)"
    using createInitialPeaks_emitted [OF f] assms by simp
  have "length ps \<le> length ?cs" unfolding ps by simp
  then have len: "length ps \<le> (if haploid s then 4 else 5)"
    by (simp only: length_candidates)
  have "sorted_wrt (\<lambda>a b. \<lfloor>a\<rfloor> < \<lfloor>b\<rfloor>) (filter ?ok ?cs)"
    using candidates_means_sorted [OF f] by (rule sorted_wrt_filter)
  then have "sorted_wrt (<) (map p_mean ps)"
    unfolding ps by (simp add: sorted_wrt_map spec_peak_def)
  with len show ?thesis by simp
qed

theorem initial_peaks_few_and_increasing_witness:
  "peaks (createInitialPeaks (example_spectra h30 True)) =
     Some [new_Peak 10 (sqrt 10) 20 True, new_Peak 20 (sqrt 20) 1 False]
   \<and> length [new_Peak 10 (sqrt 10) 20 True, new_Peak 20 (sqrt 20) 1 False] \<le> 4
   \<and> sorted_wrt (<) (map p_mean [new_Peak 10 (sqrt 10) 20 True, new_Peak 20 (sqrt 20) 1 False])"
proof -
  have f: "10 \<le> fmax (createInitialPeaks (example_spectra h30 True))"
    by (simp add: example_h30_fmax)
  have e: "peaks (createInitialPeaks (example_spectra h30 True)) =
     Some [new_Peak 10 (sqrt 10) 20 True, new_Peak 20 (sqrt 20) 1 False]"
    using createInitialPeaks_emitted [OF f]
    by (simp add: example_h30_fmax example_h30_fmin example_spectra_fields spec_candidates_def
          spec_accept_def spec_peak_def new_Peak_def floor_two_sqrt_examples)
       (simp add: h30_def)
  show ?thesis
    using initial_peaks_few_and_increasing [OF e] e by (simp add: example_spectra_fields)
qed

section \<open>Evaluating float64 rounding\<close>

text \<open>
  A value between \<open>2^52 q\<close> and \<open>2^53 q\<close> for a power of two \<open>q\<close> is rounded to a
  multiple of \<open>q\<close>; the roundings met in the examples follow.
\<close>

lemma fl64_eval:
  assumes "q = 2 ^ k / 2 ^ j" and "q * 2 ^ 52 \<le> \<bar>v\<bar>" and "\<bar>v\<bar> < q * 2 ^ 53"
  shows "fl64 v = real_of_int (round_half_even (v / q)) * q"
proof -
  define e :: int where "e = int k - int j + 52"
  have q: "q = 2 powr (real_of_int e - 52)"
    unfolding assms(1) e_def by (simp add: powr_diff powr_realpow)
  have qpos: "0 < q" unfolding q by simp
  have v0: "v \<noteq> 0" using assms(2) qpos by (auto simp: zero_less_mult_iff)
  have lo: "2 powr real_of_int e \<le> \<bar>v\<bar>"
  proof -
    have "2 powr real_of_int e = q * 2 powr 52" unfolding q by (simp add: powr_diff)
    also have "\<dots> = q * 2 ^ 52" by (simp add: powr_realpow [symmetric])
    finally show ?thesis using assms(2) by simp
  qed
  have hi: "\<bar>v\<bar> < 2 powr (real_of_int e + 1)"
  proof -
    have "2 powr (real_of_int e + 1) = q * 2 powr 53" unfolding q by (simp add: powr_diff powr_add)
    also have "\<dots> = q * 2 ^ 53" by (simp add: powr_realpow [symmetric])
    finally show ?thesis using assms(3) by simp
  qed
  have "\<lfloor>log 2 \<bar>v\<bar>\<rfloor> = e"
  proof (rule floor_unique)
    show "real_of_int e \<le> log 2 \<bar>v\<bar>" using lo v0 by (simp add: le_log_iff)
    show "log 2 \<bar>v\<bar> < real_of_int e + 1" using hi v0 by (simp add: log_less_iff)
  qed
  then show ?thesis using v0 by (simp add: fl64_def q Let_def)
qed

lemma fl64_at:
  assumes "2 ^ k / 2 ^ j * 2 ^ 52 \<le> \<bar>v\<bar>" and "\<bar>v\<bar> < 2 ^ k / 2 ^ j * 2 ^ 53"
  shows "fl64 v = real_of_int (round_half_even (v / (2 ^ k / 2 ^ j))) * (2 ^ k / 2 ^ j)"
  using assms by (intro fl64_eval [OF refl])

lemma fl64_small:
  "fl64 1 = 1" "fl64 2 = 2" "fl64 3 = 3" "fl64 (3 / 2) = 3 / 2"
  by (subst fl64_at [where k = 0 and j = 52], simp_all add: round_half_even_def,
      subst fl64_at [where k = 0 and j = 51], simp_all add: round_half_even_def,
      subst fl64_at [where k = 0 and j = 51], simp_all add: round_half_even_def,
      subst fl64_at [where k = 0 and j = 52], simp_all add: round_half_even_def)


lemma fl64_thirds:
  "fl64 (1 / 3) = 6004799503160661 / 18014398509481984"
  "fl64 (6004799503160661 / 18014398509481984) = 6004799503160661 / 18014398509481984"
  "fl64 (6004799503160661 / 9007199254740992) = 6004799503160661 / 9007199254740992"
  "fl64 (18014398509481983 / 18014398509481984) = 1"
  by (subst fl64_at [where k = 0 and j = 54], simp_all add: round_half_even_def,
      subst fl64_at [where k = 0 and j = 54], simp_all add: round_half_even_def,
      subst fl64_at [where k = 0 and j = 53], simp_all add: round_half_even_def,
      subst fl64_at [where k = 0 and j = 53], simp_all add: round_half_even_def)

lemma fl64_seven_thirds:
  "fl64 (42033596522124627 / 18014398509481984) = 2627099782632789 / 1125899906842624"
  "fl64 (2627099782632789 / 1125899906842624) = 2627099782632789 / 1125899906842624"
  "fl64 (2627099782632789 / 562949953421312) = 2627099782632789 / 562949953421312"
  "fl64 (7881299347898367 / 1125899906842624) = 7881299347898367 / 1125899906842624"
  by (subst fl64_at [where k = 0 and j = 51], simp_all add: round_half_even_def,
      subst fl64_at [where k = 0 and j = 51], simp_all add: round_half_even_def,
      subst fl64_at [where k = 0 and j = 50], simp_all add: round_half_even_def,
      subst fl64_at [where k = 0 and j = 50], simp_all add: round_half_even_def)


section \<open>Properties of the genome metrics\<close>

lemma closest_loop_none:
  "\<forall>p \<in> set ps. d \<le> \<bar>p_mean p - af\<bar> \<Longrightarrow> closest_loop af (enumerate n ps) m d = m"
  by (induction ps arbitrary: n) (auto simp: Let_def)

lemma closest_loop_some:
  assumes "\<exists>p \<in> set ps. \<bar>p_mean p - af\<bar> < d"
    and "r = closest_loop af (enumerate n ps) m d"
  shows "n \<le> r \<and> r < n + length ps \<and> \<bar>p_mean (ps ! (r - n)) - af\<bar> < d
         \<and> (\<forall>j < length ps. \<bar>p_mean (ps ! (r - n)) - af\<bar> \<le> \<bar>p_mean (ps ! j) - af\<bar>)
         \<and> (\<forall>j < r - n. \<bar>p_mean (ps ! (r - n)) - af\<bar> < \<bar>p_mean (ps ! j) - af\<bar>)"
  using assms
proof (induction ps arbitrary: n m d r)
  case Nil
  then show ?case by simp
next
  case (Cons p ps)
  let ?dl = "\<bar>p_mean p - af\<bar>"
  show ?case
  proof (cases "?dl < d")
    case True
    then have step: "closest_loop af (enumerate n (p # ps)) m d
                     = closest_loop af (enumerate (Suc n) ps) n ?dl"
      by (simp add: Let_def)
    show ?thesis
    proof (cases "\<exists>q \<in> set ps. \<bar>p_mean q - af\<bar> < ?dl")
      case False
      then have "closest_loop af (enumerate (Suc n) ps) n ?dl = n"
        by (intro closest_loop_none) (simp add: not_less)
      then have r: "r = n" using step Cons.prems(2) by simp
      have "\<forall>j < length (p # ps). ?dl \<le> \<bar>p_mean ((p # ps) ! j) - af\<bar>"
      proof (intro allI impI)
        fix j assume "j < length (p # ps)"
        then show "?dl \<le> \<bar>p_mean ((p # ps) ! j) - af\<bar>"
          using False by (cases j) (auto simp: not_less)
      qed
      then show ?thesis unfolding r using True by simp
    next
      case ex: True
      have r_def: "r = closest_loop af (enumerate (Suc n) ps) n ?dl"
        using step Cons.prems(2) by simp
      have ih: "Suc n \<le> r \<and> r < Suc n + length ps \<and> \<bar>p_mean (ps ! (r - Suc n)) - af\<bar> < ?dl
         \<and> (\<forall>j < length ps. \<bar>p_mean (ps ! (r - Suc n)) - af\<bar> \<le> \<bar>p_mean (ps ! j) - af\<bar>)
         \<and> (\<forall>j < r - Suc n. \<bar>p_mean (ps ! (r - Suc n)) - af\<bar> < \<bar>p_mean (ps ! j) - af\<bar>)"
        using ex r_def by (rule Cons.IH)
      have idx: "(p # ps) ! (r - n) = ps ! (r - Suc n)"
        using ih by (simp add: nth_Cons')
      have "\<forall>j < length (p # ps). \<bar>p_mean (ps ! (r - Suc n)) - af\<bar> \<le> \<bar>p_mean ((p # ps) ! j) - af\<bar>"
      proof (intro allI impI)
        fix j assume "j < length (p # ps)"
        then show "\<bar>p_mean (ps ! (r - Suc n)) - af\<bar> \<le> \<bar>p_mean ((p # ps) ! j) - af\<bar>"
          using ih by (cases j) auto
      qed
      moreover have "\<forall>j < r - n. \<bar>p_mean (ps ! (r - Suc n)) - af\<bar> < \<bar>p_mean ((p # ps) ! j) - af\<bar>"
      proof (intro allI impI)
        fix j assume "j < r - n"
        then show "\<bar>p_mean (ps ! (r - Suc n)) - af\<bar> < \<bar>p_mean ((p # ps) ! j) - af\<bar>"
          using ih by (cases j) auto
      qed
      ultimately show ?thesis
        unfolding idx using ih True by auto
    qed
  next
    case False
    then have step: "closest_loop af (enumerate n (p # ps)) m d
                     = closest_loop af (enumerate (Suc n) ps) m d"
      by (simp add: Let_def)
    have ex: "\<exists>q \<in> set ps. \<bar>p_mean q - af\<bar> < d"
      using Cons.prems False by auto
    have r_def: "r = closest_loop af (enumerate (Suc n) ps) m d"
      using step Cons.prems(2) by simp
    have ih: "Suc n \<le> r \<and> r < Suc n + length ps \<and> \<bar>p_mean (ps ! (r - Suc n)) - af\<bar> < d
         \<and> (\<forall>j < length ps. \<bar>p_mean (ps ! (r - Suc n)) - af\<bar> \<le> \<bar>p_mean (ps ! j) - af\<bar>)
         \<and> (\<forall>j < r - Suc n. \<bar>p_mean (ps ! (r - Suc n)) - af\<bar> < \<bar>p_mean (ps ! j) - af\<bar>)"
      using ex r_def by (rule Cons.IH)
    have idx: "(p # ps) ! (r - n) = ps ! (r - Suc n)"
      using ih by (simp add: nth_Cons')
    have "\<forall>j < length (p # ps). \<bar>p_mean (ps ! (r - Suc n)) - af\<bar> \<le> \<bar>p_mean ((p # ps) ! j) - af\<bar>"
    proof (intro allI impI)
      fix j assume "j < length (p # ps)"
      then show "\<bar>p_mean (ps ! (r - Suc n)) - af\<bar> \<le> \<bar>p_mean ((p # ps) ! j) - af\<bar>"
        using ih False by (cases j) auto
    qed
    moreover have "\<forall>j < r - n. \<bar>p_mean (ps ! (r - Suc n)) - af\<bar> < \<bar>p_mean ((p # ps) ! j) - af\<bar>"
    proof (intro allI impI)
      fix j assume "j < r - n"
      then show "\<bar>p_mean (ps ! (r - Suc n)) - af\<bar> < \<bar>p_mean ((p # ps) ! j) - af\<bar>"
        using ih False by (cases j) auto
    qed
    ultimately show ?thesis
      unfolding idx using ih by auto
  qed
qed

lemma primary_loop_none:
  "(primary_loop fm (enumerate n ps) = None) = (\<forall>p \<in> set ps. \<not> \<bar>p_mean p - real fm\<bar> < 1)"
  by (induction ps arbitrary: n) auto

lemma primary_loop_some:
  assumes "primary_loop fm (enumerate n ps) = Some r"
  shows "n \<le> r \<and> r < n + length ps \<and> \<bar>p_mean (ps ! (r - n)) - real fm\<bar> < 1
         \<and> (\<forall>j < r - n. \<not> \<bar>p_mean (ps ! j) - real fm\<bar> < 1)"
  using assms
proof (induction ps arbitrary: n)
  case Nil
  then show ?case by simp
next
  case (Cons p ps)
  show ?case
  proof (cases "\<bar>p_mean p - real fm\<bar> < 1")
    case True
    then have "r = n" using Cons.prems by simp
    then show ?thesis using True by simp
  next
    case False
    then have "primary_loop fm (enumerate (Suc n) ps) = Some r" using Cons.prems by simp
    then have ih: "Suc n \<le> r \<and> r < Suc n + length ps
         \<and> \<bar>p_mean (ps ! (r - Suc n)) - real fm\<bar> < 1
         \<and> (\<forall>j < r - Suc n. \<not> \<bar>p_mean (ps ! j) - real fm\<bar> < 1)"
      by (rule Cons.IH)
    have idx: "(p # ps) ! (r - n) = ps ! (r - Suc n)"
      using ih by (simp add: nth_Cons')
    have "\<forall>j < r - n. \<not> \<bar>p_mean ((p # ps) ! j) - real fm\<bar> < 1"
    proof (intro allI impI)
      fix j assume "j < r - n"
      then show "\<not> \<bar>p_mean ((p # ps) ! j) - real fm\<bar> < 1"
        using ih False by (cases j) auto
    qed
    then show ?thesis unfolding idx using ih by auto
  qed
qed

text \<open>
  While some peak is less than 1000000 away from the approximate frequency, the loop
  finds what its comment announces: the 1-based index of a closest peak, every earlier
  peak strictly farther. For a frequency that is not above 0 the result is the 1-based
  index of the first peak whose mean is less than 1.0 away from \<open>fmax\<close>, and 0 when
  there is none.
\<close>

lemma homozygous_index_within_sentinel:
  assumes "peaks s = Some ps" and "ps \<noteq> []"
  shows "(0 < af \<and> (\<exists>p \<in> set ps. \<bar>p_mean p - af\<bar> < 1000000) \<longrightarrow>
            (\<exists>r. getHomozygousPeakIndex s af = Inr r \<and> 1 \<le> r \<and> r \<le> length ps
               \<and> (\<forall>j < length ps. \<bar>p_mean (ps ! (r - 1)) - af\<bar> \<le> \<bar>p_mean (ps ! j) - af\<bar>)
               \<and> (\<forall>j < r - 1. \<bar>p_mean (ps ! (r - 1)) - af\<bar> < \<bar>p_mean (ps ! j) - af\<bar>)))
       \<and> (af \<le> 0 \<longrightarrow>
            (\<exists>r. getHomozygousPeakIndex s af = Inr r
               \<and> (if \<exists>p \<in> set ps. \<bar>p_mean p - real (fmax s)\<bar> < 1
                   then 1 \<le> r \<and> r \<le> length ps
                        \<and> \<bar>p_mean (ps ! (r - 1)) - real (fmax s)\<bar> < 1
                        \<and> (\<forall>j < r - 1. \<not> \<bar>p_mean (ps ! j) - real (fmax s)\<bar> < 1)
                   else r = 0)))"
proof (intro conjI impI)
  assume a: "0 < af \<and> (\<exists>p \<in> set ps. \<bar>p_mean p - af\<bar> < 1000000)"
  define r where "r = closest_loop af (enumerate 1 ps) 0 1000000"
  have res: "getHomozygousPeakIndex s af = Inr r"
    using a assms(1) by (simp add: getHomozygousPeakIndex_def r_def)
  have "\<exists>p \<in> set ps. \<bar>p_mean p - af\<bar> < 1000000" using a by blast
  then have "1 \<le> r \<and> r < 1 + length ps \<and> \<bar>p_mean (ps ! (r - 1)) - af\<bar> < 1000000
         \<and> (\<forall>j < length ps. \<bar>p_mean (ps ! (r - 1)) - af\<bar> \<le> \<bar>p_mean (ps ! j) - af\<bar>)
         \<and> (\<forall>j < r - 1. \<bar>p_mean (ps ! (r - 1)) - af\<bar> < \<bar>p_mean (ps ! j) - af\<bar>)"
    using r_def by (rule closest_loop_some)
  then show "\<exists>r. getHomozygousPeakIndex s af = Inr r \<and> 1 \<le> r \<and> r \<le> length ps
               \<and> (\<forall>j < length ps. \<bar>p_mean (ps ! (r - 1)) - af\<bar> \<le> \<bar>p_mean (ps ! j) - af\<bar>)
               \<and> (\<forall>j < r - 1. \<bar>p_mean (ps ! (r - 1)) - af\<bar> < \<bar>p_mean (ps ! j) - af\<bar>)"
    using res by (intro exI [of _ r]) simp
next
  assume a: "af \<le> 0"
  show "\<exists>r. getHomozygousPeakIndex s af = Inr r
               \<and> (if \<exists>p \<in> set ps. \<bar>p_mean p - real (fmax s)\<bar> < 1
                   then 1 \<le> r \<and> r \<le> length ps
                        \<and> \<bar>p_mean (ps ! (r - 1)) - real (fmax s)\<bar> < 1
                        \<and> (\<forall>j < r - 1. \<not> \<bar>p_mean (ps ! j) - real (fmax s)\<bar> < 1)
                   else r = 0)"
  proof (cases "primary_loop (fmax s) (enumerate 1 ps)")
    case None
    then have "\<not> (\<exists>p \<in> set ps. \<bar>p_mean p - real (fmax s)\<bar> < 1)"
      by (simp add: primary_loop_none)
    moreover have "getHomozygousPeakIndex s af = Inr 0"
      using a assms(1) None by (simp add: getHomozygousPeakIndex_def)
    ultimately show ?thesis by simp
  next
    case (Some r)
    then have ex: "\<exists>p \<in> set ps. \<bar>p_mean p - real (fmax s)\<bar> < 1"
      using primary_loop_none [of "fmax s" 1 ps] by auto
    have "1 \<le> r \<and> r < 1 + length ps \<and> \<bar>p_mean (ps ! (r - 1)) - real (fmax s)\<bar> < 1
         \<and> (\<forall>j < r - 1. \<not> \<bar>p_mean (ps ! j) - real (fmax s)\<bar> < 1)"
      using Some by (rule primary_loop_some)
    moreover have "getHomozygousPeakIndex s af = Inr r"
      using a assms(1) Some by (simp add: getHomozygousPeakIndex_def)
    ultimately show ?thesis using ex by (intro exI [of _ r]) simp
  qed
qed

lemma example_fitted_fields:
  "peaks (example_fitted ps) = Some ps" "fmax (example_fitted ps) = 10"
  by (simp_all add: example_fitted_def)


text \<open>
  Claim C6 asks, for a non-empty peak set and an approximate frequency above 0, for the
  1-based index of the peak whose mean is closest to the frequency. The code does not
  return it when every peak is 1000000 or more away: with peaks at 5, 10 and 15 and the
  frequency 2000000 the third peak is the closest one, and the result is 0, because
  \<open>delta_peak_freq\<close> starts at 1000000 and no distance is below it.
\<close>

theorem homozygous_index_far_frequency_returns_zero:
  "getHomozygousPeakIndex (example_fitted three_peaks) 2000000 = Inr 0
   \<and> \<bar>p_mean (three_peaks ! 2) - 2000000\<bar> < \<bar>p_mean (three_peaks ! 1) - 2000000\<bar>
   \<and> \<bar>p_mean (three_peaks ! 2) - 2000000\<bar> < \<bar>p_mean (three_peaks ! 0) - 2000000\<bar>"
  by (simp add: getHomozygousPeakIndex_def example_fitted_fields three_peaks_def example_peak_def
        enumerate_eq_zip upt_rec)

text \<open>
  Claim C10. For a non-empty peak set and an approximate frequency above 0, when every
  peak's mean differs from the frequency by at least 1000000, the initial value of
  \<open>delta_peak_freq\<close>, the result is 0.
\<close>

theorem homozygous_index_sentinel_gives_zero:
  assumes "peaks s = Some ps" and "ps \<noteq> []" and "0 < af"
    and "\<forall>p \<in> set ps. 1000000 \<le> \<bar>p_mean p - af\<bar>"
  shows "getHomozygousPeakIndex s af = Inr 0"
  using assms(1,3) closest_loop_none [OF assms(4)]
  by (simp add: getHomozygousPeakIndex_def)

theorem homozygous_index_sentinel_gives_zero_witness:
  "getHomozygousPeakIndex (example_fitted three_peaks) 1000015 = Inr 0"
proof -
  have p: "peaks (example_fitted three_peaks) = Some three_peaks" by (rule example_fitted_fields)
  have n: "three_peaks \<noteq> []" by (simp add: three_peaks_def)
  have a: "\<forall>p \<in> set three_peaks. 1000000 \<le> \<bar>p_mean p - 1000015\<bar>"
    by (simp add: three_peaks_def example_peak_def)
  show ?thesis
    using homozygous_index_sentinel_gives_zero [OF p n _ a] by simp
qed

lemma py_sum_total: "py_sum A xs = float_total A xs"
  by (simp add: py_sum_def float_total_def foldl_conv_fold)


text \<open>
  In arithmetic without rounding the result is the truncation of the volume-weighted
  mean itself.
\<close>

lemma float_total_exact: "float_total exact_ops xs = sum_list xs"
proof -
  have "foldl (\<lambda>acc v. acc + v) a xs = a + sum_list xs" for a :: real
    by (induction xs arbitrary: a) simp_all
  then show ?thesis by (simp add: float_total_def exact_ops_def)
qed

lemma kmer_coverage_exact_arithmetic:
  assumes "peaks s = Some ps"
  shows "calcKmerCoverage exact_ops s =
           Inr (if 0 < (\<Sum>p\<leftarrow>ps. elements p)
                then (if 0 \<le> (\<Sum>p\<leftarrow>ps. p_mean p * elements p) / (\<Sum>p\<leftarrow>ps. elements p)
                      then \<lfloor>(\<Sum>p\<leftarrow>ps. p_mean p * elements p) / (\<Sum>p\<leftarrow>ps. elements p)\<rfloor>
                      else \<lceil>(\<Sum>p\<leftarrow>ps. p_mean p * elements p) / (\<Sum>p\<leftarrow>ps. elements p)\<rceil>)
                else 0)"
  using assms
  by (simp add: calcKmerCoverage_def py_sum_total float_total_exact py_int_def Let_def)
     (simp add: exact_ops_def)




section \<open>Properties of the smoother\<close>

lemma length_slice_rev: "length (slice_rev xs a b) =
    nat (clamp_rev (int (length xs)) a - clamp_rev (int (length xs)) b)"
  by (simp add: slice_rev_def Let_def)

lemma clamp_rev_bounds: "0 \<le> n \<Longrightarrow> - 1 \<le> clamp_rev n i" "0 < n \<Longrightarrow> clamp_rev n i < n"
  by (auto simp: clamp_rev_def)

lemma set_slice_rev: "set (slice_rev xs a b) \<subseteq> set xs"
proof
  fix v assume "v \<in> set (slice_rev xs a b)"
  then obtain i where i: "clamp_rev (int (length xs)) b + 1 \<le> i"
      "i \<le> clamp_rev (int (length xs)) a" and v: "v = xs ! nat i"
    by (auto simp: slice_rev_def Let_def)
  have lo: "- 1 \<le> clamp_rev (int (length xs)) b" by (rule clamp_rev_bounds) simp
  then have "0 \<le> i" using i(1) by linarith
  have "xs \<noteq> []"
  proof
    assume "xs = []"
    then have "clamp_rev (int (length xs)) a = - 1" by (simp add: clamp_rev_def)
    then show False using i lo by linarith
  qed
  then have "0 < int (length xs)" by simp
  then have "clamp_rev (int (length xs)) a < int (length xs)" by (rule clamp_rev_bounds)
  then have "nat i < length xs" using i(2) \<open>0 \<le> i\<close> by linarith
  then show "v \<in> set xs" unfolding v by simp
qed

lemma smooth_padded_lengths:
  assumes "3 \<le> w" and "w \<le> int (length xs)"
  shows "length (slice_rev xs (w - 1) 0) = nat w - 1"
    and "length (slice_rev xs (- 2) (- w - 1)) = nat w - 1"
  using assms by (auto simp: length_slice_rev clamp_rev_def)

lemma length_np_convolve_valid:
  "length (np_convolve_valid A a v) = max (length a) (length v) - min (length a) (length v) + 1"
  by (simp add: np_convolve_valid_def Let_def)

lemma np_convolve_valid_kernel:
  assumes "length a < length v"
  shows "np_convolve_valid A a v =
    map (\<lambda>k. fdot A (take (length a) (drop k v)) (rev a)) [0..<length v - length a + 1]"
  using assms by (simp add: np_convolve_valid_def Let_def)

lemma flat_window:
  assumes "\<forall>v \<in> set sg. v = c" and "k + n \<le> length sg"
  shows "take n (drop k sg) = replicate n c"
proof -
  have e: "replicate (length sg) c = sg"
    using assms(1) by (rule replicate_length_same)
  have "take n (drop k (replicate (length sg) c)) = replicate n c"
    using assms(2) by (simp add: min_def)
  then show ?thesis by (simp only: e)
qed

lemma np_convolve_valid_flat:
  assumes "length sg > n" and "\<forall>v \<in> set sg. v = c"
  shows "\<forall>v \<in> set (np_convolve_valid A (replicate n wgt) sg).
           v = fdot A (replicate n c) (replicate n wgt)"
proof
  fix v assume "v \<in> set (np_convolve_valid A (replicate n wgt) sg)"
  then have "v \<in> (\<lambda>k. fdot A (take n (drop k sg)) (rev (replicate n wgt)))
                  ` set [0..<length sg - n + 1]"
    using np_convolve_valid_kernel [of "replicate n wgt" sg A] assms(1)
    by (simp only: length_replicate set_map)
  then obtain k where "k \<in> set [0..<length sg - n + 1]"
    and v: "v = fdot A (take n (drop k sg)) (rev (replicate n wgt))"
    by blast
  then have kn: "k + n \<le> length sg" using assms(1) by auto
  have "take n (drop k sg) = replicate n c" using assms(2) kn by (rule flat_window)
  then show "v = fdot A (replicate n c) (replicate n wgt)" unfolding v by simp
qed

lemma smooth_padded:
  assumes "3 \<le> w" and "w \<le> int (length xs)"
  shows "\<exists>y. smooth A 1 xs w = Inr y \<and> length y = length xs + nat w - 1
           \<and> (\<forall>c. (\<forall>v \<in> set xs. v = c) \<longrightarrow>
                 (\<forall>v \<in> set y. v = fdot A (replicate (nat w) c)
                        (replicate (nat w) (fl A (1 / fsum A (replicate (nat w) 1))))))"
proof -
  let ?n = "nat w"
  let ?wgt = "fl A (1 / fsum A (replicate ?n 1))"
  have n3: "3 \<le> ?n" "?n \<le> length xs" using assms by linarith+
  define sg where "sg = slice_rev xs (w - 1) 0 @ xs @ slice_rev xs (- 2) (- w - 1)"
  define y where "y = np_convolve_valid A (replicate ?n ?wgt) sg"
  have res: "smooth A 1 xs w = Inr y"
    using assms by (simp add: smooth_def Let_def y_def sg_def)
  have lsg: "length sg = length xs + 2 * (?n - 1)"
    unfolding sg_def using smooth_padded_lengths [OF assms] by simp
  have len: "length y = length xs + ?n - 1"
    unfolding y_def using lsg n3 by (simp add: length_np_convolve_valid) linarith
  have flat: "\<forall>c. (\<forall>v \<in> set xs. v = c) \<longrightarrow>
                 (\<forall>v \<in> set y. v = fdot A (replicate ?n c) (replicate ?n ?wgt))"
  proof (intro allI impI)
    fix c assume c: "\<forall>v \<in> set xs. v = c"
    have "\<forall>v \<in> set sg. v = c"
      unfolding sg_def using c by (auto dest: subsetD [OF set_slice_rev])
    moreover have "length sg > ?n" using lsg n3 by linarith
    ultimately show "\<forall>v \<in> set y. v = fdot A (replicate ?n c) (replicate ?n ?wgt)"
      unfolding y_def by (intro np_convolve_valid_flat)
  qed
  from res len flat show ?thesis by (intro exI [of _ y] conjI)
qed

text \<open>
  Claim C8, as the code has it. For a one-dimensional input of length at least the
  window length and an odd window length of at least 3, \<^verbatim>\<open>smooth\<close> returns a
  sequence with \<open>window_len - 1\<close> more samples than the input (the input is padded
  with \<open>window_len - 1\<close> mirrored samples at each end and the convolution keeps
  every full overlap). Smoothing a constant sequence returns a sequence of one repeated
  value: the float64 inner product of \<open>window_len\<close> copies of the constant with the
  \<open>window_len\<close> weights \<open>1 / window_len\<close>, which is the constant up to rounding.
  The theorem holds for every rounding and every inner product.
\<close>

theorem smooth_length_and_flat:
  assumes "3 \<le> w" and "odd w" and "w \<le> int (length xs)"
  shows "\<exists>y. smooth A 1 xs w = Inr y \<and> length y = length xs + nat w - 1
           \<and> (\<forall>c. (\<forall>v \<in> set xs. v = c) \<longrightarrow>
                 (\<forall>v \<in> set y. v = fdot A (replicate (nat w) c)
                        (replicate (nat w) (fl A (1 / fsum A (replicate (nat w) 1))))))"
  using assms(1,3) by (rule smooth_padded)

text \<open>In arithmetic without rounding the repeated value is the constant itself.\<close>

lemma smooth_flat_exact_arithmetic:
  assumes "3 \<le> w" and "w \<le> int (length xs)" and "\<forall>v \<in> set xs. v = c"
  shows "smooth exact_ops 1 xs w = Inr (replicate (length xs + nat w - 1) c)"
proof -
  obtain y where y: "smooth exact_ops 1 xs w = Inr y" "length y = length xs + nat w - 1"
    "\<forall>v \<in> set y. v = fdot exact_ops (replicate (nat w) c)
                        (replicate (nat w) (fl exact_ops (1 / fsum exact_ops (replicate (nat w) 1))))"
    using smooth_padded [OF assms(1,2), of exact_ops] assms(3) by blast
  have "fdot exact_ops (replicate (nat w) c)
          (replicate (nat w) (fl exact_ops (1 / fsum exact_ops (replicate (nat w) 1)))) = c"
    using assms(1)
    by (simp add: exact_ops_def zip_replicate sum_list_replicate)
  then have "\<forall>v \<in> set y. v = c" using y(3) by simp
  then have "replicate (length y) c = y" by (rule replicate_length_same)
  then have "y = replicate (length xs + nat w - 1) c" by (simp only: y(2))
  then show ?thesis using y(1) by (simp only:)
qed

theorem smooth_length_and_flat_witness:
  "smooth float64 1 [1, 1, 1, 1] 3 = Inr [1, 1, 1, 1, 1, 1]"
proof -
  have a: "(3::int) \<le> 3" "odd (3::int)" "(3::int) \<le> int (length [1, 1, 1, 1 :: real])"
    by simp_all
  obtain y where y: "smooth float64 1 [1, 1, 1, 1] 3 = Inr y" "length y = 6"
    "\<forall>v \<in> set y. v = fdot float64 (replicate 3 1)
                        (replicate 3 (fl float64 (1 / fsum float64 (replicate 3 1))))"
    using smooth_length_and_flat [OF a, of float64] by auto
  have "fdot float64 (replicate 3 1)
          (replicate 3 (fl float64 (1 / fsum float64 (replicate 3 1)))) = 1"
    by (simp add: float64_def numeral_3_eq_3 fl64_small fl64_thirds)
  then have "\<forall>v \<in> set y. v = 1" using y(3) by simp
  then have "replicate (length y) 1 = y" by (rule replicate_length_same)
  then have "y = replicate 6 1" by (simp only: y(2))
  then have "y = [1, 1, 1, 1, 1, 1]" by (simp add: numeral_eq_Suc)
  then show ?thesis using y(1) by (simp only:)
qed

text \<open>
  The output is not the input sequence: three samples of 7.0 and a window of 3 give
  five samples, each the float64 below 7 that prints as 6.999999999999999.
\<close>

theorem smooth_same_sequence_counterexample:
  "smooth float64 1 [7, 7, 7] 3
     = Inr [7881299347898367 / 1125899906842624, 7881299347898367 / 1125899906842624,
            7881299347898367 / 1125899906842624, 7881299347898367 / 1125899906842624,
            7881299347898367 / 1125899906842624]"
  by (simp add: smooth_def slice_rev_def clamp_rev_def np_convolve_valid_def float64_def
        numeral_3_eq_3 upto_rec1 upt_rec Let_def fl64_small fl64_thirds fl64_seven_thirds)


section \<open>Properties of the global fitter\<close>

lemma np_iadd_same: "length b = length a \<Longrightarrow> np_iadd a b = Inr (map2 (+) a b)"
  by (simp add: np_iadd_def)

lemma model_loop_sum:
  assumes "curves_on_domain env" and "length model = length tx"
  shows "\<exists>model'. model_loop env tx params ips model = Inr model' \<and> length model' = length tx
           \<and> (\<forall>i < length tx. model' ! i = model ! i + (\<Sum>jp\<leftarrow>ips. contrib env tx params jp i))"
  using assms(2)
proof (induction ips arbitrary: model)
  case Nil
  then show ?case by simp
next
  case (Cons jp ips)
  obtain j p where jp: "jp = (j, p)" by (cases jp)
  define pdist where "pdist =
    (if p_mean p - 2 * p_stddev p < 1
     then map (\<lambda>v. v * 1000) (createModel env tx (p_mean p) (p_stddev p) (params ! j))
     else createModel env tx (p_mean p) (p_stddev p) (params ! j))"
  have lc: "length (createModel env tx (p_mean p) (p_stddev p) (params ! j)) = length tx"
    using assms(1) by (simp add: curves_on_domain_def)
  then have lp: "length pdist = length tx" by (simp add: pdist_def)
  have pd: "pdist ! i = contrib env tx params jp i" if "i < length tx" for i
    using that lc by (simp add: pdist_def contrib_def jp)
  define model1 where "model1 = map2 (+) model pdist"
  have l1: "length model1 = length tx" using Cons.prems lp by (simp add: model1_def)
  have step: "model_loop env tx params (jp # ips) model = model_loop env tx params ips model1"
    using Cons.prems lp
    by (simp add: jp Let_def np_iadd_same pdist_def [symmetric] model1_def)
  obtain model' where m': "model_loop env tx params ips model1 = Inr model'"
      "length model' = length tx"
      "\<forall>i < length tx. model' ! i = model1 ! i + (\<Sum>jp\<leftarrow>ips. contrib env tx params jp i)"
    using Cons.IH [OF l1] by blast
  have "\<forall>i < length tx. model' ! i = model ! i + (\<Sum>jp\<leftarrow>jp # ips. contrib env tx params jp i)"
  proof (intro allI impI)
    fix i assume i: "i < length tx"
    have "model1 ! i = model ! i + pdist ! i"
      using i Cons.prems lp by (simp add: model1_def)
    then show "model' ! i = model ! i + (\<Sum>jp\<leftarrow>jp # ips. contrib env tx params jp i)"
      using m'(3) i pd [OF i] by simp
  qed
  then show ?case using step m'(1,2) by simp
qed

lemma spec_model_contrib:
  "spec_model env tx ps params i = (\<Sum>jp\<leftarrow>enumerate 0 ps. contrib env tx params jp i)"
  unfolding spec_model_def contrib_def by (simp add: case_prod_unfold)

lemma penalise_nth:
  assumes "i < length res"
  shows "length (penalise n i res) = length res"
    and "penalise n i res ! k = (if k = i then penalty n i (res ! i) else res ! k)"
  using assms by (auto simp: penalise_def penalty_def Let_def)

lemma fold_penalise:
  assumes "b \<le> length res"
  shows "length (fold (penalise n) [0..<b] res) = length res
         \<and> (\<forall>k < length res. fold (penalise n) [0..<b] res ! k
               = (if k < b then penalty n k (res ! k) else res ! k))"
  using assms
proof (induction b)
  case 0
  show ?case by simp
next
  case (Suc b)
  define r where "r = fold (penalise n) [0..<b] res"
  have ih: "length r = length res"
    "\<forall>k < length res. r ! k = (if k < b then penalty n k (res ! k) else res ! k)"
    using Suc unfolding r_def by simp_all
  have f: "fold (penalise n) [0..<Suc b] res = penalise n b r"
    by (simp add: r_def)
  have b: "b < length r" using Suc.prems ih(1) by simp
  show ?case
    unfolding f using penalise_nth [OF b, of n] ih Suc.prems
    by (auto simp: less_Suc_eq)
qed

text \<open>
  Claim C3. For a non-empty peak set and a candidate height vector of the same length,
  in a state where the actual histogram \<^verbatim>\<open>realTy\<close> and the domain \<^verbatim>\<open>Tx\<close> have
  the same number of bins (as \<^verbatim>\<open>optimise\<close> sets them) and with curves sampled on the
  domain, \<^verbatim>\<open>_residuals\<close> returns one value for each bin: the actual histogram minus
  the model curve, the sum of the peaks' curves at their fixed mean and standard
  deviation and the candidate height, a curve multiplied by 1000 when
  \<open>mean - 2 stddev < 1\<close>; a negative difference is multiplied by the number of peaks,
  and the value at each of the first five bins is 0.
\<close>

theorem residuals_match_specification:
  assumes "curves_on_domain env"
    and "peaks s = Some ps" and "ps \<noteq> []" and "length params = length ps"
    and "realTy s = Some actual" and "length actual = length (Tx s)"
  shows "\<exists>rs. residuals env s params = Inr rs \<and> length rs = length actual
           \<and> (\<forall>i < length actual. rs ! i = spec_residual env (Tx s) ps params actual i)"
proof -
  obtain model where m: "model_loop env (Tx s) params (enumerate 0 ps) (map (\<lambda>_. 0) (Tx s)) = Inr model"
      "length model = length (Tx s)"
      "\<forall>i < length (Tx s). model ! i
          = map (\<lambda>_. 0) (Tx s) ! i + (\<Sum>jp\<leftarrow>enumerate 0 ps. contrib env (Tx s) params jp i)"
    using model_loop_sum [OF assms(1), of "map (\<lambda>_. 0) (Tx s)" "Tx s" params "enumerate 0 ps"]
    by auto
  have mi: "model ! i = spec_model env (Tx s) ps params i" if "i < length (Tx s)" for i
    using m(3) that by (simp add: spec_model_contrib)
  define res where "res = map2 (-) actual model"
  have lres: "length res = length actual" using m(2) assms(6) by (simp add: res_def)
  have sub: "np_sub actual model = Inr res"
    using m(2) assms(6) by (simp add: np_sub_def res_def)
  define rs where "rs = fold (penalise (length ps)) [0..<length res] res"
  have r: "residuals env s params = Inr rs"
    using assms(2,4,5) m(1) sub by (simp add: residuals_def rs_def)
  have fp: "length rs = length res"
    "\<forall>k < length res. rs ! k = (if k < length res then penalty (length ps) k (res ! k) else res ! k)"
    using fold_penalise [of "length res" res "length ps"] unfolding rs_def by simp_all
  have "\<forall>i < length actual. rs ! i = spec_residual env (Tx s) ps params actual i"
  proof (intro allI impI)
    fix i assume i: "i < length actual"
    then have "res ! i = actual ! i - spec_model env (Tx s) ps params i"
      using m(2) assms(6) mi by (simp add: res_def)
    moreover have "rs ! i = penalty (length ps) i (res ! i)" using fp(2) i lres by simp
    ultimately show "rs ! i = spec_residual env (Tx s) ps params actual i"
      by (simp add: spec_residual_def penalty_def)
  qed
  then show ?thesis using r fp(1) lres by simp
qed

lemma example_env_curves: "curves_on_domain example_env"
  by (simp add: curves_on_domain_def example_env_def example_createModel_def)

theorem residuals_match_specification_witness:
  "residuals example_env example_fit [12, 1 / 1000] = Inr [0, 0, 0, 0, 0, - 20, - 22, 7]"
proof -
  have p: "peaks example_fit = Some fit_peaks" and r: "realTy example_fit = Some h8"
    by (simp_all add: example_fit_def example_spectra_def)
  have tx: "Tx example_fit = [0, 1, 2, 3, 4, 5, 6, 7]"
    by (simp add: example_fit_def example_spectra_def h8_def linspace0_def upt_rec)
  have n: "fit_peaks \<noteq> []" and l: "length [12, 1 / 1000 :: real] = length fit_peaks"
    by (simp_all add: fit_peaks_def)
  have a: "length h8 = length (Tx example_fit)" by (simp add: tx h8_def)
  obtain rs where rs: "residuals example_env example_fit [12, 1 / 1000] = Inr rs"
      "length rs = length h8"
      "\<forall>i < length h8. rs ! i
         = spec_residual example_env (Tx example_fit) fit_peaks [12, 1 / 1000] h8 i"
    using residuals_match_specification [OF example_env_curves p n l r a] by blast
  have "rs = map ((!) rs) [0..<length rs]" by (simp add: map_nth)
  also have "\<dots> = map (spec_residual example_env (Tx example_fit) fit_peaks [12, 1 / 1000] h8)
                      [0..<length h8]"
    using rs(2,3) by (intro map_cong) simp_all
  also have "\<dots> = [0, 0, 0, 0, 0, - 20, - 22, 7]"
    by (simp add: h8_def spec_residual_def spec_model_def tx fit_peaks_def example_env_def
          example_createModel_def enumerate_eq_zip upt_rec)
  finally have "rs = [0, 0, 0, 0, 0, - 20, - 22, 7]" .
  then show ?thesis using rs(1) by simp
qed



lemma sum_curves_total:
  assumes "\<forall>p \<in> set qs. length (p_Ty p) = length ty"
  shows "fst (sum_curves qs ty) = None"
  using assms
proof (induction qs arbitrary: ty)
  case Nil
  show ?case by simp
next
  case (Cons q qs)
  have l: "length (p_Ty q) = length ty" using Cons.prems by simp
  have "\<forall>p \<in> set qs. length (p_Ty p) = length (map2 (+) ty (p_Ty q))"
    using Cons.prems by simp
  then have "fst (sum_curves qs (map2 (+) ty (p_Ty q))) = None" by (rule Cons.IH)
  then show ?case using l by (simp add: np_iadd_same)
qed

lemma written_back_nth:
  assumes "i < length ps"
  shows "p_peak (written_back env tx ps params ! i) = params ! i"
    and "p_mean (written_back env tx ps params ! i) = p_mean (ps ! i)"
    and "p_stddev (written_back env tx ps params ! i) = p_stddev (ps ! i)"
    and "p_Ty (written_back env tx ps params ! i)
           = createModel env tx (p_mean (ps ! i)) (p_stddev (ps ! i)) (params ! i)"
  using assms by (simp_all add: written_back_def Peak_updateModel_def)

lemma length_written_back: "length (written_back env tx ps params) = length ps"
  by (simp add: written_back_def)

lemma updateModel_peaks:
  assumes "peaks s = Some ps" and "length params = length ps"
  shows "peaks (snd (updateModel env s params)) = Some (written_back env (Tx s) ps params)"
    and "stdout (snd (updateModel env s params)) = stdout s"
    and "stderr (snd (updateModel env s params)) = stderr s"
  using assms
  by (simp_all add: updateModel_def Let_def written_back_def case_prod_unfold)

lemma updateModel_mismatch:
  assumes "peaks s = Some ps" and "length params \<noteq> length ps"
  shows "updateModel env s params = (Some (ValueError ''Unexpected number of parameters''), s)"
  using assms by (simp add: updateModel_def)

lemma updateModel_total:
  assumes "curves_on_domain env" and "peaks s = Some ps" and "length params = length ps"
  shows "fst (updateModel env s params) = None"
proof -
  have "\<forall>p \<in> set (written_back env (Tx s) ps params).
          length (p_Ty p) = length (map (\<lambda>_. 0::real) (Tx s))"
    using assms(1)
    by (auto simp: written_back_def Peak_updateModel_def curves_on_domain_def)
  then have "fst (sum_curves (written_back env (Tx s) ps params) (map (\<lambda>_. 0) (Tx s))) = None"
    by (rule sum_curves_total)
  then show ?thesis
    using assms(2,3)
    by (simp add: updateModel_def Let_def written_back_def case_prod_unfold)
qed

lemma fit_state_fields:
  "peaks (fit_state s) = peaks s" "stdout (fit_state s) = stdout s"
  "stderr (fit_state s) = stderr s" "Tx (fit_state s) = linspace0 (length (histogram s))"
  by (simp_all add: fit_state_def)

lemma optimise_unfold:
  assumes "peaks s = Some ps" and "ps \<noteq> []"
  shows "optimise env s =
     (case least_squares env (residuals env (fit_state s)) (map p_peak ps) (map (\<lambda>p. 0) ps)
             (map p_peak ps) of
        Inl e \<Rightarrow> (Some e, fit_state s)
      | Inr res \<Rightarrow>
          if r_success res
          then (case updateModel env (fit_state s) (r_x res) of
                  (Some e, s2) \<Rightarrow> (Some e, s2)
                | (None, s2) \<Rightarrow> (None, s2\<lparr>stdout := stdout s2 @ [line (str_nat (r_nfev res))]\<rparr>))
          else (None, fit_state s))"
  using assms by (simp add: optimise_def Let_def fit_state_def split: sum.splits)

lemma optimise_success_peaks:
  assumes "peaks s = Some ps" and "ps \<noteq> []"
    and "least_squares env (residuals env (fit_state s)) (map p_peak ps) (map (\<lambda>p. 0) ps)
           (map p_peak ps) = Inr res"
    and "r_success res" and "length (r_x res) = length ps"
  shows "peaks (snd (optimise env s))
           = Some (written_back env (linspace0 (length (histogram s))) ps (r_x res))"
proof -
  have p: "peaks (fit_state s) = Some ps" using assms(1) by (simp add: fit_state_fields)
  have u: "peaks (snd (updateModel env (fit_state s) (r_x res)))
             = Some (written_back env (Tx (fit_state s)) ps (r_x res))"
    using p assms(5) by (rule updateModel_peaks)
  obtain exn s2 where um: "updateModel env (fit_state s) (r_x res) = (exn, s2)"
    by (cases "updateModel env (fit_state s) (r_x res)")
  have "peaks s2 = Some (written_back env (linspace0 (length (histogram s))) ps (r_x res))"
    using u um by (simp add: fit_state_fields)
  then show ?thesis
    using um assms(3,4) by (cases exn) (simp_all add: optimise_unfold [OF assms(1,2)])
qed

lemma optimise_no_success_peaks:
  assumes "peaks s = Some ps" and "ps \<noteq> []"
    and "\<not> (\<exists>res. least_squares env (residuals env (fit_state s)) (map p_peak ps)
                (map (\<lambda>p. 0) ps) (map p_peak ps) = Inr res \<and> r_success res)"
  shows "peaks (snd (optimise env s)) = Some ps"
  using assms(3) assms(1)
  by (auto simp: optimise_unfold [OF assms(1,2)] fit_state_fields split: sum.splits)

text \<open>
  Claim C2. For a non-empty peak set, with a solver that keeps its result inside the
  bounds it is given, \<^verbatim>\<open>optimise\<close> never raises a peak's height above its value before
  the fit, and leaves every mean and standard deviation as it was. The solver is called
  with the current heights as the start, 0 as every lower bound and the current heights
  as the upper bounds; after a successful solve every peak's height is the solved one,
  between 0 and its height before the fit.
\<close>

theorem global_fit_never_raises_heights:
  assumes "solver_in_bounds env" and "peaks s = Some ps" and "ps \<noteq> []"
  shows "\<exists>ps'. peaks (snd (optimise env s)) = Some ps' \<and> length ps' = length ps
           \<and> (\<forall>i < length ps. p_peak (ps' ! i) \<le> p_peak (ps ! i)
                 \<and> p_mean (ps' ! i) = p_mean (ps ! i) \<and> p_stddev (ps' ! i) = p_stddev (ps ! i))
           \<and> (\<forall>res. least_squares env
                        (residuals env (s\<lparr>Tx := linspace0 (length (histogram s)),
                                          realTy := Some (histogram s)\<rparr>))
                        (map p_peak ps) (map (\<lambda>p. 0) ps) (map p_peak ps) = Inr res
                      \<and> r_success res \<longrightarrow>
                 (\<forall>i < length ps. p_peak (ps' ! i) = r_x res ! i \<and> 0 \<le> r_x res ! i
                     \<and> r_x res ! i \<le> p_peak (ps ! i)))"
proof (cases "\<exists>res. least_squares env (residuals env (fit_state s)) (map p_peak ps)
                (map (\<lambda>p. 0) ps) (map p_peak ps) = Inr res \<and> r_success res")
  case False
  then have "peaks (snd (optimise env s)) = Some ps"
    by (rule optimise_no_success_peaks [OF assms(2,3)])
  then show ?thesis using False by (auto simp: fit_state_def)
next
  case True
  then obtain res where res: "least_squares env (residuals env (fit_state s)) (map p_peak ps)
                (map (\<lambda>p. 0) ps) (map p_peak ps) = Inr res" and ok: "r_success res"
    by blast
  have b: "length (r_x res) = length (map p_peak ps)
           \<and> (\<forall>i < length (map p_peak ps). map (\<lambda>p. 0) ps ! i \<le> r_x res ! i
                  \<and> r_x res ! i \<le> map p_peak ps ! i)"
    using assms(1) res unfolding solver_in_bounds_def by blast
  then have len: "length (r_x res) = length ps"
    and bnd: "\<And>i. i < length ps \<Longrightarrow> 0 \<le> r_x res ! i \<and> r_x res ! i \<le> p_peak (ps ! i)"
    by simp_all
  define ps' where "ps' = written_back env (linspace0 (length (histogram s))) ps (r_x res)"
  have p': "peaks (snd (optimise env s)) = Some ps'"
    unfolding ps'_def using assms(2,3) res ok len by (rule optimise_success_peaks)
  have each: "\<forall>i < length ps. p_peak (ps' ! i) = r_x res ! i \<and> 0 \<le> r_x res ! i
        \<and> r_x res ! i \<le> p_peak (ps ! i)
        \<and> p_mean (ps' ! i) = p_mean (ps ! i) \<and> p_stddev (ps' ! i) = p_stddev (ps ! i)"
    using bnd by (simp add: ps'_def written_back_nth)
  have "\<forall>res'. least_squares env (residuals env (fit_state s)) (map p_peak ps)
                (map (\<lambda>p. 0) ps) (map p_peak ps) = Inr res' \<and> r_success res' \<longrightarrow> res' = res"
    using res by simp
  then show ?thesis
    using p' each by (auto simp: ps'_def length_written_back fit_state_def)
qed

lemma example_solver_in_bounds: "solver_in_bounds example_env"
proof -
  have "lb ! i \<le> (lb ! i + ub ! i) / 2 \<and> (lb ! i + ub ! i) / 2 \<le> ub ! i"
    if "list_all2 (<) lb ub" and "i < length lb" for lb ub :: "real list" and i
  proof -
    have "lb ! i < ub ! i" using that by (simp add: list_all2_nthD)
    then show ?thesis by simp
  qed
  then show ?thesis
    by (auto simp: solver_in_bounds_def example_env_def example_least_squares_def
          list_all2_lengthD split: if_splits)
qed

theorem global_fit_never_raises_heights_witness:
  "map p_peak (the (peaks (snd (optimise example_env example_fit)))) = [6, 1]
   \<and> map p_mean (the (peaks (snd (optimise example_env example_fit)))) = [6, 6]
   \<and> map p_stddev (the (peaks (snd (optimise example_env example_fit)))) = [1, 3]"
proof -
  have p: "peaks example_fit = Some fit_peaks"
    by (simp add: example_fit_def)
  have n: "fit_peaks \<noteq> []" by (simp add: fit_peaks_def)
  obtain ps' where ps': "peaks (snd (optimise example_env example_fit)) = Some ps'"
    "length ps' = length fit_peaks"
    using global_fit_never_raises_heights [OF example_solver_in_bounds p n] by blast
  have r: "least_squares example_env
             (residuals example_env (fit_state example_fit))
             (map p_peak fit_peaks) (map (\<lambda>p. 0) fit_peaks) (map p_peak fit_peaks)
           = Inr \<lparr>r_success = True, r_x = [6, 1], r_nfev = 1\<rparr>"
    by (simp add: example_env_def example_least_squares_def fit_peaks_def)
  have "peaks (snd (optimise example_env example_fit))
          = Some (written_back example_env (linspace0 (length (histogram example_fit)))
                    fit_peaks [6, 1])"
    using optimise_success_peaks [OF p n r] by (simp add: fit_peaks_def)
  then show ?thesis
    using ps' by (simp add: written_back_def Peak_updateModel_def fit_peaks_def upt_rec)
qed


section \<open>Properties of the orchestrator\<close>


lemma optimise_raise_frame:
  assumes "curves_on_domain env" and "optimise env s = (Some e, s')"
  shows "peaks s' = peaks s \<and> stdout s' = stdout s \<and> stderr s' = stderr s"
proof (cases "peaks s")
  case None
  then show ?thesis using assms(2) by (auto simp: optimise_def)
next
  case (Some ps)
  show ?thesis
  proof (cases "ps = []")
    case True
    then show ?thesis using assms(2) Some by (auto simp: optimise_def)
  next
    case False
    note unf = optimise_unfold [OF Some False, of env]
    show ?thesis
    proof (cases "least_squares env (residuals env (fit_state s)) (map p_peak ps)
                    (map (\<lambda>p. 0) ps) (map p_peak ps)")
      case (Inl e')
      then have "s' = fit_state s" using assms(2) unf by simp
      then show ?thesis by (simp add: fit_state_fields)
    next
      case (Inr res)
      have ok: "r_success res" using assms(2) unf Inr by (auto split: if_splits)
      have p: "peaks (fit_state s) = Some ps" using Some by (simp add: fit_state_fields)
      show ?thesis
      proof (cases "length (r_x res) = length ps")
        case True
        have "fst (updateModel env (fit_state s) (r_x res)) = None"
          using assms(1) p True by (rule updateModel_total)
        then have "fst (optimise env s) = None"
          using unf Inr ok by (simp add: case_prod_unfold)
        then show ?thesis using assms(2) by simp
      next
        case False
        have "updateModel env (fit_state s) (r_x res)
                = (Some (ValueError ''Unexpected number of parameters''), fit_state s)"
          using p False by (rule updateModel_mismatch)
        then have "s' = fit_state s" using assms(2) unf Inr ok by simp
        then show ?thesis by (simp add: fit_state_fields)
      qed
    qed
  qed
qed

lemma try_optimise_raise:
  assumes "optimise env s = (Some inst, s1)"
  shows "try_optimise env verbose s
           = (None, print_err (line (str_exception inst)) (print_err (line warning_text) s1))"
  using assms by (simp add: try_optimise_def)

lemma print_out_fields:
  "peaks (print_out t s) = peaks s" "histogram (print_out t s) = histogram s"
  "stderr (print_out t s) = stderr s"
  by (simp_all add: print_out_def)

lemma printPeaks_fields:
  assumes "printPeaks env s = (exn, s')"
  shows "peaks s' = peaks s \<and> histogram s' = histogram s \<and> stderr s' = stderr s"
  using assms by (auto simp: printPeaks_def print_out_fields split: option.splits if_splits)

lemma refine_and_prune_quiet:
  "refine_and_prune env min_elements False ps s =
     (case refine_loop env (histogram s) ps of
        (Some e, ps') \<Rightarrow> (Some e, s\<lparr>peaks := Some ps'\<rparr>)
      | (None, ps') \<Rightarrow> (None, s\<lparr>peaks := Some (filter (\<lambda>p. elements p \<ge> min_elements) ps')\<rparr>))"
  by (simp add: refine_and_prune_def Let_def split: prod.splits option.splits)

lemma refine_and_prune_peaks:
  assumes "refine_and_prune env min_elements verbose ps s = (None, s2)"
  shows "\<exists>ps'. refine_loop env (histogram s) ps = (None, ps')
           \<and> peaks s2 = Some (filter (\<lambda>q. min_elements \<le> elements q) ps')
           \<and> stderr s2 = stderr s"
proof (cases verbose)
  case False
  obtain e3 ps' where rl: "refine_loop env (histogram s) ps = (e3, ps')"
    by (cases "refine_loop env (histogram s) ps")
  have "e3 = None \<and> s2 = s\<lparr>peaks := Some (filter (\<lambda>p. elements p \<ge> min_elements) ps')\<rparr>"
    using assms False rl by (cases e3) (simp_all add: refine_and_prune_quiet)
  then show ?thesis using rl by simp
next
  case True
  let ?s1 = "print_out (line []) (print_out
               (line (''done. '' @ str_nat (length ps) @ '' peaks initially created'')) s)"
  obtain e2 s2' where pp: "printPeaks env ?s1 = (e2, s2')" by (cases "printPeaks env ?s1")
  have f2: "peaks s2' = peaks ?s1 \<and> histogram s2' = histogram ?s1 \<and> stderr s2' = stderr ?s1"
    using pp by (rule printPeaks_fields)
  let ?s3 = "print_out ''Locally optimising each peak ... '' (print_out (line []) s2')"
  have h3: "histogram ?s3 = histogram s" "stderr ?s3 = stderr s"
    using f2 by (simp_all add: print_out_fields)
  obtain e3 ps' where rl: "refine_loop env (histogram ?s3) ps = (e3, ps')"
    by (cases "refine_loop env (histogram ?s3) ps")
  let ?s4 = "?s3\<lparr>peaks := Some (filter (\<lambda>p. elements p \<ge> min_elements) ps')\<rparr>"
  obtain e5 s5 where p5: "printPeaks env (print_out (line []) (print_out (line ''done.'') ?s4)) = (e5, s5)"
    by (cases "printPeaks env (print_out (line []) (print_out (line ''done.'') ?s4))")
  have f5: "peaks s5 = peaks ?s4 \<and> stderr s5 = stderr ?s4"
    using printPeaks_fields [OF p5] by (simp add: print_out_fields)
  have unf: "refine_and_prune env min_elements True ps s =
     (case e2 of Some e \<Rightarrow> (Some e, s2')
      | None \<Rightarrow> (case e3 of Some e \<Rightarrow> (Some e, ?s3\<lparr>peaks := Some ps'\<rparr>)
          | None \<Rightarrow> (case e5 of Some e \<Rightarrow> (Some e, s5)
              | None \<Rightarrow> (None, print_out
                    ''Fitting cumulative distribution to histogram by adjusting peaks ... ''
                    (print_out (line []) s5)))))"
    unfolding refine_and_prune_def Let_def if_True pp prod.case
    by (cases e2; cases e3; cases e5) (simp_all only: option.case rl p5 prod.case)
  have e: "e2 = None \<and> e3 = None \<and> e5 = None
           \<and> s2 = print_out
                    ''Fitting cumulative distribution to histogram by adjusting peaks ... ''
                    (print_out (line []) s5)"
  proof -
    have "refine_and_prune env min_elements True ps s = (None, s2)"
      using assms True by simp
    then show ?thesis unfolding unf by (cases e2; cases e3; cases e5) simp_all
  qed
  have "peaks s2 = Some (filter (\<lambda>q. min_elements \<le> elements q) ps')"
    using f5 e by (simp add: print_out_fields)
  moreover have "stderr s2 = stderr s"
    using f5 h3 e by (simp add: print_out_fields)
  moreover have "refine_loop env (histogram s) ps = (None, ps')"
    using rl e h3 by simp
  ultimately show ?thesis by blast
qed

text \<open>
  Claim C4. In a run of \<^verbatim>\<open>analyse\<close> that reaches the global fit (initial peaks
  exist, local refinement and pruning raised nothing) and in which \<^verbatim>\<open>optimise\<close>
  raises, \<^verbatim>\<open>analyse\<close> itself raises nothing: it writes the warning and the
  exception's text to the diagnostic stream, nothing more to the standard output, and
  the peak set is the one before the fit, the locally refined peaks that passed the
  pruning. Curves are sampled on the histogram's domain.
\<close>

theorem failed_fit_is_caught:
  assumes "curves_on_domain env"
    and "locate (if verbose
                 then print_out ''Creating initial peaks ... '' (print_out (line []) s)
                 else s) = (None, s1)"
    and "peaks s1 = Some (p # rest)"
    and "refine_and_prune env min_elements verbose (p # rest) s1 = (None, s2)"
    and "fst (optimise env s2) = Some inst"
  shows "\<exists>s' ps'. analyse env locate min_elements verbose s = (None, s')
           \<and> refine_loop env (histogram s1) (p # rest) = (None, ps')
           \<and> peaks s' = Some (filter (\<lambda>q. min_elements \<le> elements q) ps')
           \<and> peaks s' = peaks s2
           \<and> stdout s' = stdout s2
           \<and> stderr s' = stderr s1 @ [line warning_text, line (str_exception inst)]"
proof -
  obtain s3 where o: "optimise env s2 = (Some inst, s3)"
    using assms(5) by (cases "optimise env s2") simp
  have fr: "peaks s3 = peaks s2 \<and> stdout s3 = stdout s2 \<and> stderr s3 = stderr s2"
    using assms(1) o by (rule optimise_raise_frame)
  define s' where "s' = print_err (line (str_exception inst)) (print_err (line warning_text) s3)"
  have t: "try_optimise env verbose s2 = (None, s')"
    unfolding s'_def using o by (rule try_optimise_raise)
  have a: "analyse env locate min_elements verbose s = (None, s')"
    using assms(2,3,4) t by (simp add: analyse_def Let_def)
  obtain ps' where ps': "refine_loop env (histogram s1) (p # rest) = (None, ps')"
    "peaks s2 = Some (filter (\<lambda>q. min_elements \<le> elements q) ps')" "stderr s2 = stderr s1"
    using refine_and_prune_peaks [OF assms(4)] by blast
  have "peaks s' = peaks s2" "stdout s' = stdout s2"
    "stderr s' = stderr s1 @ [line warning_text, line (str_exception inst)]"
    using fr ps'(3) by (simp_all add: s'_def print_err_def)
  then show ?thesis using a ps'(1,2) by auto
qed



lemma example_h30z_fmin: "fmin (createInitialPeaks (example_spectra h30z hap)) = 1"
  by (simp add: createInitialPeaks_fmin example_spectra_def h30z_def upt_rec)

lemma example_h30z_fmax: "fmax (createInitialPeaks (example_spectra h30z hap)) = 10"
  by (simp add: createInitialPeaks_fmax example_h30z_fmin)
     (simp add: example_spectra_def h30z_def np_argmax_def upt_rec)

lemma example_h30z_peaks:
  "peaks (createInitialPeaks (example_spectra h30z False)) =
     Some [new_Peak 5 (sqrt 5) 5 False, new_Peak 10 (sqrt 10) 20 True,
           new_Peak 20 (sqrt 20) 0 False]"
proof -
  have f: "10 \<le> fmax (createInitialPeaks (example_spectra h30z False))"
    by (simp add: example_h30z_fmax)
  show ?thesis
    using createInitialPeaks_emitted [OF f]
    by (simp add: example_h30z_fmax example_h30z_fmin example_spectra_fields spec_candidates_def
          spec_accept_def spec_peak_def new_Peak_def floor_two_sqrt_examples)
       (simp add: h30z_def)
qed

lemma example_refine_loop:
  "refine_loop example_env h ps =
     (None, map (\<lambda>p. p\<lparr>p_Ty := example_createModel (linspace0 (length h))
                                 (p_mean p) (p_stddev p) (p_peak p)\<rparr>) ps)"
  by (induction ps) (simp_all add: example_env_def)

lemma example_curve_volume:
  assumes "0 \<le> hgt"
  shows "0 \<le> sum_list (example_createModel tx m sd hgt)"
  using assms by (intro sum_list_nonneg) (auto simp: example_createModel_def)

theorem failed_fit_is_caught_witness:
  "fst (analyse example_env kmer_locate 0 False (example_spectra h30z False)) = None
   \<and> stderr (snd (analyse example_env kmer_locate 0 False (example_spectra h30z False)))
       = [line warning_text,
          line ''Each lower bound must be strictly less than each upper bound.'']
   \<and> map p_peak (the (peaks (snd (analyse example_env kmer_locate 0 False
                                      (example_spectra h30z False))))) = [5, 20, 0]"
proof -
  define s1 where "s1 = createInitialPeaks (example_spectra h30z False)"
  define refined :: "Peak \<Rightarrow> Peak" where "refined = (\<lambda>p. p\<lparr>p_Ty := example_createModel (linspace0 (length (histogram s1)))
                                 (p_mean p) (p_stddev p) (p_peak p)\<rparr>)"
  define ps where "ps = [new_Peak 5 (sqrt 5) 5 False, new_Peak 10 (sqrt 10) 20 True,
           new_Peak 20 (sqrt 20) 0 False]"
  define s2 where "s2 = s1\<lparr>peaks := Some (map refined ps)\<rparr>"
  have l: "kmer_locate (if False
             then print_out ''Creating initial peaks ... ''
                    (print_out (line []) (example_spectra h30z False))
             else example_spectra h30z False) = (None, s1)"
    by (simp add: kmer_locate_def s1_def)
  have p: "peaks s1 = Some ps"
    unfolding s1_def ps_def by (rule example_h30z_peaks)
  have keep: "filter (\<lambda>q. 0 \<le> elements q) (map refined ps) = map refined ps"
    by (simp add: ps_def refined_def new_Peak_def elements_def example_curve_volume)
  have rl: "refine_loop example_env (histogram s1) ps = (None, map refined ps)"
    by (simp only: example_refine_loop refined_def)
  have r: "refine_and_prune example_env 0 False ps s1 = (None, s2)"
    by (simp only: refine_and_prune_quiet rl prod.case option.case keep s2_def)
  have p2: "peaks s2 = Some (map refined ps)" by (simp add: s2_def)
  have n2: "map refined ps \<noteq> []" by (simp add: ps_def)
  have o: "fst (optimise example_env s2)
             = Some (ValueError ''Each lower bound must be strictly less than each upper bound.'')"
    unfolding optimise_unfold [OF p2 n2]
    by (simp add: example_env_def example_least_squares_def ps_def refined_def new_Peak_def)
  have e: "stderr s1 = []"
    by (simp add: s1_def createInitialPeaks_def Let_def example_spectra_def)
  obtain s' ps' where s': "analyse example_env kmer_locate 0 False (example_spectra h30z False)
                             = (None, s')"
      "peaks s' = peaks s2"
      "stderr s' = stderr s1 @ [line warning_text,
         line (str_exception
                 (ValueError ''Each lower bound must be strictly less than each upper bound.''))]"
    using failed_fit_is_caught [where locate = kmer_locate and verbose = False
        and s = "example_spectra h30z False",
        OF example_env_curves l p [unfolded ps_def] r [unfolded ps_def] o]
    by blast
  show ?thesis
    using s' e p2 by (simp add: ps_def refined_def new_Peak_def)
qed


end
